theory Spec2Isabelle
  imports Complex_Main
begin

section \<open>Numbers and vectors\<close>

text \<open>
  JavaScript numbers are modelled as real numbers wherever the program computes with them
  (exact arithmetic: rounding and overflow of IEEE doubles are not modelled). Values
  that enter the program from outside (client messages, answers of the spatial index) may be
  NaN or infinite, and the program tests them with \<open>Number.isFinite\<close>; those carry the type
  \<open>jsnum\<close>. Integer quantities (health, ammo, kills, millisecond timestamps) are \<open>int\<close>.
\<close>

datatype jsnum = Fin real | PInf | MInf | NaN

fun isFinite :: "jsnum \<Rightarrow> bool" where
  "isFinite (Fin r) = True"
| "isFinite PInf = False"
| "isFinite MInf = False"
| "isFinite NaN = False"

fun fin :: "jsnum \<Rightarrow> real" where
  "fin (Fin r) = r"
| "fin PInf = 0"
| "fin MInf = 0"
| "fin NaN = 0"

text \<open>Arithmetic and comparison of such values, as IEEE defines them on NaN and infinities.\<close>

fun jadd :: "jsnum \<Rightarrow> jsnum \<Rightarrow> jsnum" where
  "jadd (Fin a) (Fin b) = Fin (a + b)"
| "jadd NaN _ = NaN"
| "jadd _ NaN = NaN"
| "jadd PInf MInf = NaN"
| "jadd MInf PInf = NaN"
| "jadd PInf _ = PInf"
| "jadd _ PInf = PInf"
| "jadd MInf _ = MInf"
| "jadd _ MInf = MInf"

fun jneg :: "jsnum \<Rightarrow> jsnum" where
  "jneg (Fin a) = Fin (- a)"
| "jneg PInf = MInf"
| "jneg MInf = PInf"
| "jneg NaN = NaN"

definition jsub :: "jsnum \<Rightarrow> jsnum \<Rightarrow> jsnum" where
  "jsub a b = jadd a (jneg b)"

fun jabs :: "jsnum \<Rightarrow> jsnum" where
  "jabs (Fin a) = Fin \<bar>a\<bar>"
| "jabs PInf = PInf"
| "jabs MInf = PInf"
| "jabs NaN = NaN"

fun jlt :: "jsnum \<Rightarrow> jsnum \<Rightarrow> bool" where
  "jlt (Fin a) (Fin b) = (a < b)"
| "jlt NaN _ = False"
| "jlt _ NaN = False"
| "jlt MInf MInf = False"
| "jlt MInf _ = True"
| "jlt PInf _ = False"
| "jlt (Fin a) PInf = True"
| "jlt (Fin a) MInf = False"

fun jle :: "jsnum \<Rightarrow> jsnum \<Rightarrow> bool" where
  "jle (Fin a) (Fin b) = (a \<le> b)"
| "jle NaN _ = False"
| "jle _ NaN = False"
| "jle MInf _ = True"
| "jle PInf PInf = True"
| "jle PInf _ = False"
| "jle (Fin a) PInf = True"
| "jle (Fin a) MInf = False"

datatype jsvec = JVec (jx: jsnum) (jy: jsnum) (jz: jsnum)

datatype vec3 = Vec3 (vx: real) (vy: real) (vz: real)

definition vadd :: "vec3 \<Rightarrow> vec3 \<Rightarrow> vec3" where
  "vadd a b = Vec3 (vx a + vx b) (vy a + vy b) (vz a + vz b)"

definition subVectors :: "vec3 \<Rightarrow> vec3 \<Rightarrow> vec3" where
  "subVectors a b = Vec3 (vx a - vx b) (vy a - vy b) (vz a - vz b)"

definition multiplyScalar :: "vec3 \<Rightarrow> real \<Rightarrow> vec3" where
  "multiplyScalar v s = Vec3 (vx v * s) (vy v * s) (vz v * s)"

definition addScaledVector :: "vec3 \<Rightarrow> vec3 \<Rightarrow> real \<Rightarrow> vec3" where
  "addScaledVector a v s = Vec3 (vx a + vx v * s) (vy a + vy v * s) (vz a + vz v * s)"

definition dot :: "vec3 \<Rightarrow> vec3 \<Rightarrow> real" where
  "dot a b = vx a * vx b + vy a * vy b + vz a * vz b"

definition crossVectors :: "vec3 \<Rightarrow> vec3 \<Rightarrow> vec3" where
  "crossVectors a b =
     Vec3 (vy a * vz b - vz a * vy b) (vz a * vx b - vx a * vz b) (vx a * vy b - vy a * vx b)"

definition lengthSq :: "vec3 \<Rightarrow> real" where
  "lengthSq v = vx v * vx v + vy v * vy v + vz v * vz v"

definition vlength :: "vec3 \<Rightarrow> real" where
  "vlength v = sqrt (lengthSq v)"

text \<open>\<open>Vector3.normalize\<close> divides by \<open>length() || 1\<close>: the zero vector stays zero.\<close>

definition normalize :: "vec3 \<Rightarrow> vec3" where
  "normalize v = multiplyScalar v (1 / (if vlength v = 0 then 1 else vlength v))"

definition distanceTo :: "vec3 \<Rightarrow> vec3 \<Rightarrow> real" where
  "distanceTo a b = vlength (subVectors a b)"

subsection \<open>Orientation\<close>

text \<open>
  Every \<open>THREE.Euler\<close> of the program is built with order \<open>'YXZ'\<close>; \<open>ex\<close> is pitch,
  \<open>ey\<close> yaw and \<open>ez\<close> roll. \<open>setFromEuler\<close> and \<open>applyQuaternion\<close> are the library's
  formulas for that order.
\<close>

datatype euler = Euler (ex: real) (ey: real) (ez: real)

datatype quaternion = Quaternion (qx: real) (qy: real) (qz: real) (qw: real)

definition setFromEuler :: "euler \<Rightarrow> quaternion" where
  "setFromEuler e =
     (let c1 = cos (ex e / 2); c2 = cos (ey e / 2); c3 = cos (ez e / 2);
          s1 = sin (ex e / 2); s2 = sin (ey e / 2); s3 = sin (ez e / 2)
      in Quaternion (s1 * c2 * c3 + c1 * s2 * s3)
                    (c1 * s2 * c3 - s1 * c2 * s3)
                    (c1 * c2 * s3 - s1 * s2 * c3)
                    (c1 * c2 * c3 + s1 * s2 * s3))"

definition applyQuaternion :: "vec3 \<Rightarrow> quaternion \<Rightarrow> vec3" where
  "applyQuaternion v q =
     (let tx = 2 * (qy q * vz v - qz q * vy v);
          ty = 2 * (qz q * vx v - qx q * vz v);
          tz = 2 * (qx q * vy v - qy q * vx v)
      in Vec3 (vx v + qw q * tx + qy q * tz - qz q * ty)
              (vy v + qw q * ty + qz q * tx - qx q * tz)
              (vz v + qw q * tz + qx q * ty - qy q * tx))"

definition applyEuler :: "vec3 \<Rightarrow> euler \<Rightarrow> vec3" where
  "applyEuler v e = applyQuaternion v (setFromEuler e)"

section \<open>Entities\<close>

record capsule =
  cstart :: vec3
  cend :: vec3
  cradius :: real

record sphere =
  center :: vec3
  sradius :: real

definition translate :: "capsule \<Rightarrow> vec3 \<Rightarrow> capsule" where
  "translate c v = c\<lparr>cstart := vadd (cstart c) v, cend := vadd (cend c) v\<rparr>"

record bullet =
  bid :: nat
  ownerId :: string
  bcollider :: sphere
  bvelocity :: vec3
  spawnTime :: int

record player =
  pid :: string
  name :: string
  collider :: capsule
  velocity :: vec3
  rotation :: euler
  input :: "string \<Rightarrow> bool"
  onFloor :: bool
  health :: int
  maxHealth :: int
  ammo :: int
  maxAmmo :: int
  isReloading :: bool
  reloadStartTime :: int
  reloadTime :: int
  kills :: int

section \<open>Projectile spawning\<close>

definition bulletDirection :: "player \<Rightarrow> vec3" where
  "bulletDirection p = normalize (applyEuler (Vec3 0 0 (-1)) (rotation p))"

definition MUZZLE_FORWARD :: real where "MUZZLE_FORWARD = 18 / 100"
definition MUZZLE_UP :: real where "MUZZLE_UP = 2 / 10"
definition MUZZLE_RIGHT :: real where "MUZZLE_RIGHT = 1 / 10"

definition bulletStart :: "player \<Rightarrow> vec3" where
  "bulletStart p =
     (let direction = bulletDirection p;
          headPos = cend (collider p);
          camQuat = setFromEuler (rotation p);
          right = normalize (applyQuaternion (Vec3 1 0 0) camQuat);
          up = normalize (applyQuaternion (Vec3 0 1 0) camQuat)
      in vadd (vadd (vadd (vadd headPos (multiplyScalar direction MUZZLE_FORWARD))
                                (multiplyScalar up MUZZLE_UP))
                          (multiplyScalar right MUZZLE_RIGHT))
              (multiplyScalar direction (4 / 100)))"

text \<open>
  \<open>createBullet\<close> builds this projectile, numbered by the id counter, and pushes it onto the
  projectile list; \<open>now\<close> is the reading of \<open>Date.now()\<close>.
\<close>

definition newBullet :: "player \<Rightarrow> nat \<Rightarrow> int \<Rightarrow> bullet" where
  "newBullet p n now =
     \<lparr>bid = n, ownerId = pid p,
      bcollider = \<lparr>center = bulletStart p, sradius = 8 / 100\<rparr>,
      bvelocity = multiplyScalar (bulletDirection p) 80,
      spawnTime = now\<rparr>"

section \<open>Configuration constants\<close>

definition TICK_RATE :: real where "TICK_RATE = 60"
definition TICK_TIME :: real where "TICK_TIME = 1000 / TICK_RATE"
definition PHYSICS_SUBSTEPS :: nat where "PHYSICS_SUBSTEPS = 5"
definition GRAVITY :: real where "GRAVITY = 30"
definition PLAYER_SPEED :: real where "PLAYER_SPEED = 40"
definition JUMP_VELOCITY :: real where "JUMP_VELOCITY = 8"
definition MAX_SPEED :: real where "MAX_SPEED = 5"
definition RESPAWN_TIME :: int where "RESPAWN_TIME = 3000"

definition MEDKIT_MAX :: nat where "MEDKIT_MAX = 10"
definition MEDKIT_RESPAWN_INTERVAL :: int where "MEDKIT_RESPAWN_INTERVAL = 4000"
definition MEDKIT_HEAL_AMOUNT :: int where "MEDKIT_HEAL_AMOUNT = 40"
definition MEDKIT_RADIUS :: real where "MEDKIT_RADIUS = 35 / 100"
definition MEDKIT_MIN_GROUND_NORMAL :: real where "MEDKIT_MIN_GROUND_NORMAL = 7 / 10"
definition MEDKIT_MIN_PLAYER_DISTANCE :: real where "MEDKIT_MIN_PLAYER_DISTANCE = 2"
definition MEDKIT_SPAWN_BOUNDS :: real where "MEDKIT_SPAWN_BOUNDS = 50"
definition MEDKIT_RAY_HEIGHT :: real where "MEDKIT_RAY_HEIGHT = 30"
definition MEDKIT_TRIES :: nat where "MEDKIT_TRIES = 60"

section \<open>The spatial index and the ray-cast facade\<close>

text \<open>
  The octree is an external structure. A query either throws or returns; a ray query returns
  nothing or a hit whose fields may be missing, a capsule query returns nothing or a contact.
\<close>

datatype 'a outcome = Throws | Returns 'a

record ray =
  origin :: vec3
  direction :: vec3

record rawhit =
  rpoint :: "jsvec option"
  rnormal :: "jsvec option"
  rdistance :: "jsnum option"

record hit =
  point :: jsvec
  normal :: "jsvec option"
  distance :: "jsnum option"

record contact =
  cnormal :: "vec3 option"
  depth :: real

record world =
  octreeReady :: bool
  rayIntersect :: "ray \<Rightarrow> rawhit option outcome"
  capsuleIntersect :: "capsule \<Rightarrow> contact option outcome"

text \<open>
  \<open>safeRayIntersect\<close> returns \<open>null\<close> (here \<open>None\<close>) when the octree is not ready, when
  the query throws, when it reports no hit and when the hit has no point; a hit it returns
  has a point.
\<close>

definition safeRayIntersect :: "world \<Rightarrow> ray \<Rightarrow> hit option" where
  "safeRayIntersect w r =
     (if \<not> octreeReady w then None
      else case rayIntersect w r of
             Throws \<Rightarrow> None
           | Returns None \<Rightarrow> None
           | Returns (Some h) \<Rightarrow>
               (case rpoint h of
                  None \<Rightarrow> None
                | Some pt \<Rightarrow> Some \<lparr>point = pt, normal = rnormal h, distance = rdistance h\<rparr>))"

section \<open>Pickup placement\<close>

record options =
  maxTries :: nat
  bounds :: real
  minNormalY :: real
  minPlayerDist :: real
  rayHeight :: real
  medkitRadius :: real

definition defaultOptions :: options where
  "defaultOptions =
     \<lparr>maxTries = MEDKIT_TRIES, bounds = MEDKIT_SPAWN_BOUNDS,
      minNormalY = MEDKIT_MIN_GROUND_NORMAL, minPlayerDist = MEDKIT_MIN_PLAYER_DISTANCE,
      rayHeight = MEDKIT_RAY_HEIGHT, medkitRadius = MEDKIT_RADIUS\<rparr>"

definition downRay :: "real \<Rightarrow> real \<Rightarrow> real \<Rightarrow> ray" where
  "downRay x h z = \<lparr>origin = Vec3 x h z, direction = Vec3 0 (-1) 0\<rparr>"

definition normalYOf :: "hit \<Rightarrow> jsnum" where
  "normalYOf h = (case normal h of Some n \<Rightarrow> jy n | None \<Rightarrow> Fin 0)"

definition finiteVec :: "jsvec \<Rightarrow> bool" where
  "finiteVec p \<longleftrightarrow> isFinite (jx p) \<and> isFinite (jy p) \<and> isFinite (jz p)"

definition liftPoint :: "options \<Rightarrow> hit \<Rightarrow> jsvec" where
  "liftPoint opt h =
     JVec (jx (point h)) (jadd (jy (point h)) (Fin (medkitRadius opt + 2 / 100))) (jz (point h))"

definition SAMPLE_OFFSETS :: "vec3 list" where
  "SAMPLE_OFFSETS =
     [Vec3 0 0 0, Vec3 (4 / 10) 0 0, Vec3 (- (4 / 10)) 0 0, Vec3 0 0 (4 / 10), Vec3 0 0 (- (4 / 10))]"

definition sampleAgrees :: "world \<Rightarrow> options \<Rightarrow> hit \<Rightarrow> jsvec \<Rightarrow> vec3 \<Rightarrow> bool" where
  "sampleAgrees w opt h pos off =
     (case safeRayIntersect w (downRay (fin (jx pos) + vx off) (rayHeight opt) (fin (jz pos) + vz off)) of
        None \<Rightarrow> False
      | Some sHit \<Rightarrow>
          if jlt (Fin (medkitRadius opt + 3 / 10)) (jabs (jsub (jy (point sHit)) (jy (point h))))
          then False
          else \<not> jlt (normalYOf sHit) (Fin (minNormalY opt)))"

definition tooCloseTo :: "options \<Rightarrow> jsvec \<Rightarrow> player \<Rightarrow> bool" where
  "tooCloseTo opt pos p =
     (let c = multiplyScalar (vadd (cstart (collider p)) (cend (collider p))) (1 / 2);
          feetY = vy (cstart (collider p)) - cradius (collider p);
          dx = vx c - fin (jx pos);
          dz = vz c - fin (jz pos);
          d2 = dx * dx + dz * dz;
          dy = feetY - fin (jy pos)
      in d2 < minPlayerDist opt * minPlayerDist opt \<or>
         (\<bar>dy\<bar> < 6 / 10 \<and> d2 < (minPlayerDist opt * (7 / 10)) * (minPlayerDist opt * (7 / 10))))"

definition blockedAbove :: "world \<Rightarrow> options \<Rightarrow> jsvec \<Rightarrow> bool" where
  "blockedAbove w opt pos =
     (case safeRayIntersect w
             \<lparr>origin = Vec3 (fin (jx pos)) (fin (jy pos) + 1 / 100) (fin (jz pos)),
              direction = Vec3 0 1 0\<rparr> of
        None \<Rightarrow> False
      | Some upHit \<Rightarrow>
          (case distance upHit of
             None \<Rightarrow> False
           | Some d \<Rightarrow> jlt d (Fin (medkitRadius opt * (9 / 10)))))"

text \<open>One pass of the body of the primary loop: \<open>None\<close> is \<open>continue\<close>, \<open>Some pos\<close> is \<open>return\<close>.\<close>

definition strictCandidate :: "world \<Rightarrow> options \<Rightarrow> player list \<Rightarrow> real \<Rightarrow> real \<Rightarrow> jsvec option" where
  "strictCandidate w opt ps x z =
     (case safeRayIntersect w (downRay x (rayHeight opt) z) of
        None \<Rightarrow> None
      | Some h \<Rightarrow>
          if jlt (normalYOf h) (Fin (minNormalY opt)) then None
          else let pos = liftPoint opt h in
            if \<not> isFinite (jx pos) \<or> \<not> isFinite (jy pos) \<or> \<not> isFinite (jz pos) then None
            else if jlt (jy pos) (Fin (- 10)) \<or> jlt (Fin (rayHeight opt)) (jy pos) then None
            else if \<not> list_all (sampleAgrees w opt h pos) SAMPLE_OFFSETS then None
            else if list_ex (tooCloseTo opt pos) ps then None
            else if blockedAbove w opt pos then None
            else Some pos)"

text \<open>The body of both fallback loops: a downward ray from height \<open>h\<close> and the finiteness test.\<close>

definition groundCandidate :: "world \<Rightarrow> options \<Rightarrow> real \<Rightarrow> real \<Rightarrow> real \<Rightarrow> jsvec option" where
  "groundCandidate w opt x h z =
     (case safeRayIntersect w (downRay x h z) of
        None \<Rightarrow> None
      | Some ht \<Rightarrow>
          let pos = liftPoint opt ht in
            if \<not> isFinite (jx pos) \<or> \<not> isFinite (jy pos) \<or> \<not> isFinite (jz pos) then None
            else Some pos)"

text \<open>
  \<open>Math.random()\<close> is a stream \<open>rnd\<close> read at a running index. The loops thread the
  index together with a count of the candidate positions sampled so far.
\<close>

type_synonym cursor = "nat \<times> nat"

definition sampleCoord :: "(nat \<Rightarrow> real) \<Rightarrow> options \<Rightarrow> nat \<Rightarrow> real" where
  "sampleCoord rnd opt i = (rnd i - 1 / 2) * 2 * bounds opt"

fun primaryLoop ::
  "world \<Rightarrow> options \<Rightarrow> player list \<Rightarrow> (nat \<Rightarrow> real) \<Rightarrow> nat \<Rightarrow> cursor \<Rightarrow> jsvec option \<times> cursor" where
  "primaryLoop w opt ps rnd 0 (i, a) = (None, (i, a))"
| "primaryLoop w opt ps rnd (Suc n) (i, a) =
     (case strictCandidate w opt ps (sampleCoord rnd opt i) (sampleCoord rnd opt (i + 1)) of
        Some pos \<Rightarrow> (Some pos, (i + 2, a + 1))
      | None \<Rightarrow> primaryLoop w opt ps rnd n (i + 2, a + 1))"

fun relaxedLoop ::
  "world \<Rightarrow> options \<Rightarrow> (nat \<Rightarrow> real) \<Rightarrow> nat \<Rightarrow> cursor \<Rightarrow> jsvec option \<times> cursor" where
  "relaxedLoop w opt rnd 0 (i, a) = (None, (i, a))"
| "relaxedLoop w opt rnd (Suc n) (i, a) =
     (case groundCandidate w opt (sampleCoord rnd opt i) (rayHeight opt) (sampleCoord rnd opt (i + 1)) of
        Some pos \<Rightarrow> (Some pos, (i + 2, a + 1))
      | None \<Rightarrow> relaxedLoop w opt rnd n (i + 2, a + 1))"

fun ringLoop ::
  "world \<Rightarrow> options \<Rightarrow> player \<Rightarrow> (nat \<Rightarrow> real) \<Rightarrow> nat \<Rightarrow> cursor \<Rightarrow> jsvec option \<times> cursor" where
  "ringLoop w opt p rnd 0 (i, a) = (None, (i, a))"
| "ringLoop w opt p rnd (Suc n) (i, a) =
     (let angle = rnd i * pi * 2;
          r = MEDKIT_MIN_PLAYER_DISTANCE + rnd (i + 1) * 4;
          px = (vx (cstart (collider p)) + vx (cend (collider p))) / 2 + cos angle * r;
          pz = (vz (cstart (collider p)) + vz (cend (collider p))) / 2 + sin angle * r
      in case groundCandidate w opt px MEDKIT_RAY_HEIGHT pz of
           Some pos \<Rightarrow> (Some pos, (i + 2, a + 1))
         | None \<Rightarrow> ringLoop w opt p rnd n (i + 2, a + 1))"

definition unconditioned :: "(nat \<Rightarrow> real) \<Rightarrow> options \<Rightarrow> cursor \<Rightarrow> jsvec \<times> cursor" where
  "unconditioned rnd opt ia =
     (JVec (Fin (sampleCoord rnd opt (fst ia))) (Fin (medkitRadius opt + 2 / 100))
           (Fin (sampleCoord rnd opt (fst ia + 1))),
      (fst ia + 2, snd ia + 1))"

datatype fault = TypeError | QueryFault

text \<open>
  The player of the ring fallback is \<open>playerList[Math.floor(Math.random() * length)]\<close>;
  an index outside the list reads \<open>undefined\<close>, whose \<open>collider\<close> access throws.
\<close>

definition randomGroundPosition ::
  "world \<Rightarrow> player list \<Rightarrow> (nat \<Rightarrow> real) \<Rightarrow> options \<Rightarrow> fault + (jsvec \<times> cursor)" where
  "randomGroundPosition w ps rnd opt =
     (if \<not> octreeReady w then Inr (unconditioned rnd opt (0, 0))
      else case primaryLoop w opt ps rnd (maxTries opt) (0, 0) of
        (Some pos, ia) \<Rightarrow> Inr (pos, ia)
      | (None, ia) \<Rightarrow>
         (case relaxedLoop w opt rnd 20 ia of
            (Some pos, ia') \<Rightarrow> Inr (pos, ia')
          | (None, (i, a)) \<Rightarrow>
             if ps \<noteq> [] then
               (let k = \<lfloor>rnd i * real (length ps)\<rfloor> in
                if k < 0 \<or> int (length ps) \<le> k then Inl TypeError
                else case ringLoop w opt (ps ! nat k) rnd 12 (i + 1, a) of
                       (Some pos, ia') \<Rightarrow> Inr (pos, ia')
                     | (None, ia') \<Rightarrow> Inr (unconditioned rnd opt ia'))
             else Inr (unconditioned rnd opt (i, a))))"

section \<open>Simulation state\<close>

text \<open>
  \<open>players\<close> is a JavaScript object used as a dictionary whose values are enumerated in
  insertion order. The program stores a player only under the key that is also the player's
  \<open>id\<close> field, and never reassigns that field, so the dictionary is modelled as the list
  of its values in insertion order, looked up by \<open>pid\<close>. \<open>deadPlayers\<close> is an association
  list in insertion order.
\<close>

record pending =
  respawnTime :: int
  savedKills :: int

record medkit =
  mid :: real
  position :: vec3
  pickedUp :: bool

record state =
  players :: "player list"
  bullets :: "bullet list"
  medkits :: "medkit list"
  deadPlayers :: "(string \<times> pending) list"
  nextBulletId :: nat
  lastMedkitSpawn :: int

definition getPlayer :: "string \<Rightarrow> player list \<Rightarrow> player option" where
  "getPlayer k ps = find (\<lambda>p. pid p = k) ps"

fun putPlayer :: "player \<Rightarrow> player list \<Rightarrow> player list" where
  "putPlayer v [] = [v]"
| "putPlayer v (p # ps) = (if pid p = pid v then v # ps else p # putPlayer v ps)"

definition deletePlayer :: "string \<Rightarrow> player list \<Rightarrow> player list" where
  "deletePlayer k ps = filter (\<lambda>p. pid p \<noteq> k) ps"

definition storePlayer :: "player \<Rightarrow> player list \<Rightarrow> player list" where
  "storePlayer v ps = map (\<lambda>p. if pid p = pid v then v else p) ps"

fun objSet :: "string \<Rightarrow> 'a \<Rightarrow> (string \<times> 'a) list \<Rightarrow> (string \<times> 'a) list" where
  "objSet k v [] = [(k, v)]"
| "objSet k v (e # es) = (if fst e = k then (k, v) # es else e # objSet k v es)"

definition objDelete :: "string \<Rightarrow> (string \<times> 'a) list \<Rightarrow> (string \<times> 'a) list" where
  "objDelete k es = filter (\<lambda>e. fst e \<noteq> k) es"

definition spawnCapsule :: capsule where
  "spawnCapsule = \<lparr>cstart = Vec3 0 (35 / 100) 0, cend = Vec3 0 (8 / 10) 0, cradius = 35 / 100\<rparr>"

text \<open>The object literal of a new connection and of a respawn; they differ in \<open>kills\<close> only.\<close>

definition freshPlayer :: "string \<Rightarrow> int \<Rightarrow> player" where
  "freshPlayer k n =
     \<lparr>pid = k, name = k, collider = spawnCapsule, velocity = Vec3 0 0 0,
      rotation = Euler 0 0 0, input = (\<lambda>_. False), onFloor = False,
      health = 100, maxHealth = 100, ammo = 30, maxAmmo = 30,
      isReloading = False, reloadStartTime = 0, reloadTime = 1500, kills = n\<rparr>"

section \<open>Session bridge\<close>

definition onConnection :: "string \<Rightarrow> state \<Rightarrow> state" where
  "onConnection k s = s\<lparr>players := putPlayer (freshPlayer k 0) (players s)\<rparr>"

definition onClose :: "string \<Rightarrow> state \<Rightarrow> state" where
  "onClose k s = s\<lparr>players := deletePlayer k (players s)\<rparr>"

text \<open>
  A parsed client message. \<open>Malformed\<close> is text that \<open>JSON.parse\<close> rejects (the handler
  catches and logs); a rotation field that is not a number counts as \<open>NaN\<close>; \<open>Unknown\<close> is any
  other \<open>type\<close>.
\<close>

datatype message =
    Malformed
  | Join "string option"
  | Input "jsvec option" "(string \<Rightarrow> bool) option"
  | Shoot
  | Reload
  | Unknown

definition applyRotation :: "jsvec option \<Rightarrow> player \<Rightarrow> player" where
  "applyRotation r p =
     (case r of
        None \<Rightarrow> p
      | Some v \<Rightarrow>
          if isFinite (jx v) \<and> isFinite (jy v) \<and> isFinite (jz v)
          then p\<lparr>rotation := Euler (max (- pi / 2) (min (pi / 2) (fin (jx v)))) (fin (jy v)) (fin (jz v))\<rparr>
          else p)"

definition onInput :: "jsvec option \<Rightarrow> (string \<Rightarrow> bool) option \<Rightarrow> player \<Rightarrow> player" where
  "onInput r keys p =
     (applyRotation r p)\<lparr>input := (case keys of None \<Rightarrow> (\<lambda>_. False) | Some m \<Rightarrow> m)\<rparr>"

definition onJoin :: "string option \<Rightarrow> player \<Rightarrow> player" where
  "onJoin n p =
     (case n of
        None \<Rightarrow> p
      | Some t \<Rightarrow> if length t > 0 then p\<lparr>name := take 16 t\<rparr> else p)"

text \<open>The \<open>shoot\<close> branch: the player after the shot, and the projectile if one was fired.\<close>

definition onShoot :: "int \<Rightarrow> nat \<Rightarrow> player \<Rightarrow> player \<times> bullet option" where
  "onShoot now n p =
     (if \<not> isReloading p \<and> ammo p > 0 then
        (let p1 = p\<lparr>ammo := ammo p - 1\<rparr>;
             b = newBullet p1 n now
         in (if ammo p1 \<le> 0 then p1\<lparr>isReloading := True, reloadStartTime := now\<rparr> else p1, Some b))
      else (p, None))"

definition onReload :: "int \<Rightarrow> player \<Rightarrow> player" where
  "onReload now p =
     (if \<not> isReloading p \<and> ammo p < maxAmmo p
      then p\<lparr>isReloading := True, reloadStartTime := now\<rparr> else p)"

definition onMessage :: "string \<Rightarrow> int \<Rightarrow> message \<Rightarrow> state \<Rightarrow> state" where
  "onMessage k now msg s =
     (case msg of
        Malformed \<Rightarrow> s
      | _ \<Rightarrow>
        (case getPlayer k (players s) of
           None \<Rightarrow> s
         | Some p \<Rightarrow>
            (case msg of
               Join n \<Rightarrow> s\<lparr>players := storePlayer (onJoin n p) (players s)\<rparr>
             | Input r keys \<Rightarrow> s\<lparr>players := storePlayer (onInput r keys p) (players s)\<rparr>
             | Shoot \<Rightarrow>
                 (case onShoot now (nextBulletId s) p of
                    (p', None) \<Rightarrow> s\<lparr>players := storePlayer p' (players s)\<rparr>
                  | (p', Some b) \<Rightarrow>
                      s\<lparr>players := storePlayer p' (players s),
                        bullets := bullets s @ [b],
                        nextBulletId := Suc (nextBulletId s)\<rparr>)
             | Reload \<Rightarrow> s\<lparr>players := storePlayer (onReload now p) (players s)\<rparr>
             | _ \<Rightarrow> s)))"

section \<open>Reload timer\<close>

definition updatePlayerState :: "int \<Rightarrow> player \<Rightarrow> player" where
  "updatePlayerState now p =
     (if isReloading p \<and> now - reloadStartTime p \<ge> reloadTime p
      then p\<lparr>isReloading := False, ammo := maxAmmo p\<rparr> else p)"

section \<open>Movement integrator\<close>

definition setY :: "vec3 \<Rightarrow> real \<Rightarrow> vec3" where
  "setY v y = Vec3 (vx v) y (vz v)"

text \<open>Lines 247 to 256: acceleration from the pressed keys, jump and gravity.\<close>

definition accelerate :: "player \<Rightarrow> real \<Rightarrow> vec3" where
  "accelerate p deltaTime =
     (let forward = normalize (setY (applyEuler (Vec3 0 0 (-1)) (rotation p)) 0);
          side = crossVectors forward (Vec3 0 1 0);
          accel = PLAYER_SPEED * deltaTime;
          v0 = velocity p;
          v1 = (if input p ''KeyW'' then vadd v0 (multiplyScalar forward accel) else v0);
          v2 = (if input p ''KeyS'' then vadd v1 (multiplyScalar forward (- accel)) else v1);
          v3 = (if input p ''KeyA'' then vadd v2 (multiplyScalar side (- accel)) else v2);
          v4 = (if input p ''KeyD'' then vadd v3 (multiplyScalar side accel) else v3);
          v5 = (if onFloor p \<and> input p ''Space'' then setY v4 JUMP_VELOCITY else v4)
      in if \<not> onFloor p then setY v5 (vy v5 - GRAVITY * deltaTime) else v5)"

text \<open>Lines 257 to 264: damping of the horizontal axes, then the speed clamp.\<close>

definition damp :: "vec3 \<Rightarrow> real \<Rightarrow> vec3" where
  "damp v deltaTime = Vec3 (vx v * exp (- 6 * deltaTime)) (vy v) (vz v * exp (- 6 * deltaTime))"

definition clampHorizontal :: "vec3 \<Rightarrow> vec3" where
  "clampHorizontal v =
     (let horizontal = Vec3 (vx v) 0 (vz v) in
      if lengthSq horizontal > MAX_SPEED * MAX_SPEED
      then (let h = multiplyScalar (normalize horizontal) MAX_SPEED in Vec3 (vx h) (vy v) (vz h))
      else v)"

text \<open>Lines 268 to 273: the response to the capsule sweep; a contact without a normal throws.\<close>

definition respond :: "contact option \<Rightarrow> player \<Rightarrow> fault + player" where
  "respond result p =
     (case result of
        None \<Rightarrow> Inr (p\<lparr>onFloor := False\<rparr>)
      | Some c \<Rightarrow>
          (case cnormal c of
             None \<Rightarrow> Inl TypeError
           | Some n \<Rightarrow>
               (let floor = vy n > 0;
                    v = (if \<not> floor then addScaledVector (velocity p) n (- dot n (velocity p))
                         else velocity p)
                in Inr (p\<lparr>onFloor := floor, velocity := v,
                          collider := translate (collider p) (multiplyScalar n (depth c))\<rparr>))))"

definition failSafe :: "player \<Rightarrow> player" where
  "failSafe p =
     (if vy (cstart (collider p)) < - 25
      then p\<lparr>collider := (collider p)\<lparr>cstart := Vec3 0 (35 / 100) 0, cend := Vec3 0 (8 / 10) 0\<rparr>,
             velocity := Vec3 0 0 0\<rparr>
      else p)"

text \<open>
  \<open>updatePlayer\<close> calls \<open>worldOctree.capsuleIntersect\<close> directly, outside any \<open>try\<close>: when the
  query throws, so does \<open>updatePlayer\<close>.
\<close>

definition updatePlayer :: "world \<Rightarrow> player \<Rightarrow> real \<Rightarrow> fault + player" where
  "updatePlayer w p deltaTime =
     (let v = clampHorizontal (damp (accelerate p deltaTime) deltaTime);
          p1 = p\<lparr>velocity := v, collider := translate (collider p) (multiplyScalar v deltaTime)\<rparr>
      in case capsuleIntersect w (collider p1) of
           Throws \<Rightarrow> Inl QueryFault
         | Returns result \<Rightarrow>
             (case respond result p1 of
                Inl e \<Rightarrow> Inl e
              | Inr p2 \<Rightarrow> Inr (failSafe p2)))"

fun updatePlayers :: "world \<Rightarrow> real \<Rightarrow> player list \<Rightarrow> fault + player list" where
  "updatePlayers w deltaTime [] = Inr []"
| "updatePlayers w deltaTime (p # ps) =
     (case updatePlayer w p deltaTime of
        Inl e \<Rightarrow> Inl e
      | Inr p' \<Rightarrow>
          (case updatePlayers w deltaTime ps of
             Inl e \<Rightarrow> Inl e
           | Inr ps' \<Rightarrow> Inr (p' # ps')))"

section \<open>Combat\<close>

definition capsuleIntersectsSphere :: "capsule \<Rightarrow> sphere \<Rightarrow> bool" where
  "capsuleIntersectsSphere c s =
     (let radius = cradius c + sradius s;
          segDir = subVectors (cend c) (cstart c);
          segLen = vlength segDir
      in if segLen = 0 then distanceTo (cstart c) (center s) \<le> radius
         else (let segDir = normalize segDir;
                   toCenter = subVectors (center s) (cstart c);
                   t = max 0 (min segLen (dot segDir toCenter));
                   closestPoint = vadd (cstart c) (multiplyScalar segDir t)
               in distanceTo closestPoint (center s) \<le> radius))"

definition advance :: "bullet \<Rightarrow> real \<Rightarrow> bullet" where
  "advance b deltaTime =
     b\<lparr>bcollider := (bcollider b)\<lparr>center :=
          addScaledVector (center (bcollider b)) (bvelocity b) deltaTime\<rparr>\<rparr>"

text \<open>The removal test of line 293, for the projectile \<open>b\<close> already advanced from \<open>prev\<close>.\<close>

definition terminates :: "world \<Rightarrow> int \<Rightarrow> vec3 \<Rightarrow> bullet \<Rightarrow> bool" where
  "terminates w now prev b =
     (let dir = subVectors (center (bcollider b)) prev;
          segLen = vlength dir;
          dir = (if segLen > 0 then normalize dir else dir);
          worldCollision = safeRayIntersect w \<lparr>origin = prev, direction = dir\<rparr>
      in (case worldCollision of
            None \<Rightarrow> False
          | Some h \<Rightarrow> (case distance h of None \<Rightarrow> False | Some d \<Rightarrow> jle d (Fin segLen)))
         \<or> vlength (center (bcollider b)) > 300
         \<or> now - spawnTime b > 3000)"

text \<open>
  The loop runs from the last projectile to the first and splices the removed ones out;
  \<open>foldr\<close> visits the list in that order.
\<close>

definition updateBullets :: "world \<Rightarrow> real \<Rightarrow> int \<Rightarrow> bullet list \<Rightarrow> bullet list" where
  "updateBullets w deltaTime now bs =
     foldr (\<lambda>b kept. if terminates w now (center (bcollider b)) (advance b deltaTime)
                      then kept else advance b deltaTime # kept) bs []"

definition struckBy :: "bullet \<Rightarrow> player \<Rightarrow> bool" where
  "struckBy b p \<longleftrightarrow> ownerId b \<noteq> pid p \<and> capsuleIntersectsSphere (collider p) (bcollider b)"

definition resolveHit ::
  "int \<Rightarrow> bullet \<Rightarrow> player \<Rightarrow> player list \<times> (string \<times> pending) list
     \<Rightarrow> player list \<times> (string \<times> pending) list" where
  "resolveHit now b victim pd =
     (let v = victim\<lparr>health := health victim - 20\<rparr>;
          ps = storePlayer v (fst pd)
      in if health v \<le> 0 then
           (deletePlayer (pid v)
              (map (\<lambda>p. if pid p = ownerId b then p\<lparr>kills := kills p + 1\<rparr> else p) ps),
            objSet (pid v) \<lparr>respawnTime = now + RESPAWN_TIME, savedKills = kills v\<rparr> (snd pd))
         else (ps, snd pd))"

definition collide ::
  "int \<Rightarrow> bullet \<Rightarrow> player list \<times> (string \<times> pending) list \<times> bullet list
     \<Rightarrow> player list \<times> (string \<times> pending) list \<times> bullet list" where
  "collide now b acc =
     (case acc of (ps, dead, kept) \<Rightarrow>
        (case find (struckBy b) ps of
           None \<Rightarrow> (ps, dead, b # kept)
         | Some victim \<Rightarrow>
             (case resolveHit now b victim (ps, dead) of (ps', dead') \<Rightarrow> (ps', dead', kept))))"

definition checkCollisions :: "int \<Rightarrow> state \<Rightarrow> state" where
  "checkCollisions now s =
     (case foldr (collide now) (bullets s) (players s, deadPlayers s, []) of
        (ps, dead, kept) \<Rightarrow> s\<lparr>players := ps, deadPlayers := dead, bullets := kept\<rparr>)"

section \<open>Respawn sweep\<close>

definition respawn ::
  "int \<Rightarrow> player list \<times> (string \<times> pending) list \<Rightarrow> string \<times> pending
     \<Rightarrow> player list \<times> (string \<times> pending) list" where
  "respawn now pd e =
     (if now \<ge> respawnTime (snd e)
      then (putPlayer (freshPlayer (fst e) (savedKills (snd e))) (fst pd), objDelete (fst e) (snd pd))
      else pd)"

definition respawnPlayers :: "int \<Rightarrow> state \<Rightarrow> state" where
  "respawnPlayers now s =
     (case foldl (respawn now) (players s, deadPlayers s) (deadPlayers s) of
        (ps, dead) \<Rightarrow> s\<lparr>players := ps, deadPlayers := dead\<rparr>)"

section \<open>Medkits\<close>

text \<open>
  The identifier of a medkit is made of the digits of one more \<open>Math.random()\<close> reading;
  the model keeps the reading itself.
\<close>

definition spawnMedkit ::
  "world \<Rightarrow> player list \<Rightarrow> (nat \<Rightarrow> real) \<Rightarrow> medkit list \<Rightarrow> fault + medkit list" where
  "spawnMedkit w ps rnd ms =
     (if length ms \<ge> MEDKIT_MAX then Inr ms
      else case randomGroundPosition w ps rnd defaultOptions of
             Inl e \<Rightarrow> Inl e
           | Inr (pos, ia) \<Rightarrow>
               if \<not> isFinite (jx pos) \<or> \<not> isFinite (jy pos) \<or> \<not> isFinite (jz pos)
               then Inr (ms @ [\<lparr>mid = rnd (fst ia),
                                position = Vec3 0 (MEDKIT_RADIUS + 2 / 100) 0, pickedUp = False\<rparr>])
               else Inr (ms @ [\<lparr>mid = rnd (fst ia),
                                position = Vec3 (fin (jx pos)) (fin (jy pos)) (fin (jz pos)),
                                pickedUp = False\<rparr>]))"

definition inReach :: "player \<Rightarrow> medkit \<Rightarrow> bool" where
  "inReach p m =
     (let px = vx (cstart (collider p)); py = vy (cstart (collider p)); pz = vz (cstart (collider p));
          x = vx (position m); y = vy (position m); z = vz (position m);
          dist = sqrt ((px - x) * (px - x) + (py - y) * (py - y) + (pz - z) * (pz - z))
      in dist < 1)"

text \<open>The inner loop of \<open>checkMedkitPickups\<close>: one player against every medkit in turn.\<close>

fun pickups :: "player \<Rightarrow> medkit list \<Rightarrow> player \<times> medkit list" where
  "pickups p [] = (p, [])"
| "pickups p (m # ms) =
     (if pickedUp m then (case pickups p ms of (p', ms') \<Rightarrow> (p', m # ms'))
      else if inReach p m \<and> health p < maxHealth p
      then (case pickups (p\<lparr>health := min (maxHealth p) (health p + MEDKIT_HEAL_AMOUNT)\<rparr>) ms of
              (p', ms') \<Rightarrow> (p', m\<lparr>pickedUp := True\<rparr> # ms'))
      else (case pickups p ms of (p', ms') \<Rightarrow> (p', m # ms')))"

fun checkMedkitPickups :: "player list \<Rightarrow> medkit list \<Rightarrow> player list \<times> medkit list" where
  "checkMedkitPickups [] ms = ([], ms)"
| "checkMedkitPickups (p # ps) ms =
     (case pickups p ms of
        (p', ms') \<Rightarrow> (case checkMedkitPickups ps ms' of (ps', ms'') \<Rightarrow> (p' # ps', ms'')))"

section \<open>The tick\<close>

definition deltaTime :: real where "deltaTime = TICK_TIME / 1000"
definition substepDelta :: real where "substepDelta = deltaTime / real PHYSICS_SUBSTEPS"

definition substep :: "world \<Rightarrow> int \<Rightarrow> state \<Rightarrow> fault + state" where
  "substep w now s =
     (case updatePlayers w substepDelta (players s) of
        Inl e \<Rightarrow> Inl e
      | Inr ps \<Rightarrow>
          Inr (checkCollisions now
                 (s\<lparr>players := ps, bullets := updateBullets w substepDelta now (bullets s)\<rparr>)))"

fun substeps :: "world \<Rightarrow> int \<Rightarrow> nat \<Rightarrow> state \<Rightarrow> fault + state" where
  "substeps w now 0 s = Inr s"
| "substeps w now (Suc n) s =
     (case substep w now s of Inl e \<Rightarrow> Inl e | Inr s' \<Rightarrow> substeps w now n s')"

definition medkitMaintenance :: "world \<Rightarrow> (nat \<Rightarrow> real) \<Rightarrow> int \<Rightarrow> state \<Rightarrow> fault + state" where
  "medkitMaintenance w rnd now s =
     (if now - lastMedkitSpawn s > MEDKIT_RESPAWN_INTERVAL
      then (case spawnMedkit w (players s) rnd (medkits s) of
              Inl e \<Rightarrow> Inl e
            | Inr ms \<Rightarrow> Inr (s\<lparr>medkits := ms, lastMedkitSpawn := now\<rparr>))
      else Inr s)"

definition collectMedkits :: "state \<Rightarrow> state" where
  "collectMedkits s =
     (case checkMedkitPickups (players s) (medkits s) of
        (ps, ms) \<Rightarrow> s\<lparr>players := ps, medkits := filter (\<lambda>m. \<not> pickedUp m) ms\<rparr>)"

text \<open>
  One tick, up to the snapshot (serialising and broadcasting change no state). \<open>now\<close> is the
  clock reading of the tick: the readings of \<open>Date.now()\<close> inside one tick are taken to agree.
  \<open>Inl\<close> is an exception that leaves \<open>tick\<close>.
\<close>

definition tick :: "world \<Rightarrow> (nat \<Rightarrow> real) \<Rightarrow> int \<Rightarrow> state \<Rightarrow> fault + state" where
  "tick w rnd now s =
     (case substeps w now PHYSICS_SUBSTEPS (s\<lparr>players := map (updatePlayerState now) (players s)\<rparr>) of
        Inl e \<Rightarrow> Inl e
      | Inr s1 \<Rightarrow>
          (case medkitMaintenance w rnd now (respawnPlayers now s1) of
             Inl e \<Rightarrow> Inl e
           | Inr s2 \<Rightarrow> Inr (collectMedkits s2)))"

section \<open>Example worlds and states\<close>

definition emptyState :: state where
  "emptyState = \<lparr>players = [], bullets = [], medkits = [], deadPlayers = [],
                  nextBulletId = 0, lastMedkitSpawn = 0\<rparr>"

text \<open>An octree both of whose queries throw.\<close>

definition throwingWorld :: world where
  "throwingWorld = \<lparr>octreeReady = True, rayIntersect = (\<lambda>_. Throws), capsuleIntersect = (\<lambda>_. Throws)\<rparr>"

text \<open>An octree whose answers lack data: a ray hit without a point, a contact without a normal.\<close>

definition incompleteWorld :: world where
  "incompleteWorld = \<lparr>octreeReady = True,
      rayIntersect = (\<lambda>_. Returns (Some \<lparr>rpoint = None, rnormal = None, rdistance = None\<rparr>)),
      capsuleIntersect = (\<lambda>_. Returns (Some \<lparr>cnormal = None, depth = 0\<rparr>))\<rparr>"

text \<open>An empty octree that is not ready: no ray hit, no capsule contact.\<close>

definition openWorld :: world where
  "openWorld = \<lparr>octreeReady = False, rayIntersect = (\<lambda>_. Returns None),
                 capsuleIntersect = (\<lambda>_. Returns None)\<rparr>"


text \<open>A medkit lying two centimetres above the start point of the spawn capsule.\<close>

definition spawnKit :: medkit where
  "spawnKit = \<lparr>mid = 0, position = Vec3 0 (37 / 100) 0, pickedUp = False\<rparr>"

text \<open>A state whose only content is one pending respawn, due at time 3000 with two kills.\<close>

definition awaitingState :: state where
  "awaitingState = emptyState\<lparr>deadPlayers := [(''player_b'', \<lparr>respawnTime = 3000, savedKills = 2\<rparr>)]\<rparr>"

text \<open>A projectile one metre above the origin, flying along the negative z axis.\<close>

definition flyingBullet :: bullet where
  "flyingBullet = \<lparr>bid = 0, ownerId = ''player_a'',
      bcollider = \<lparr>center = Vec3 0 1 0, sradius = 8 / 100\<rparr>,
      bvelocity = Vec3 0 0 (- 80), spawnTime = 0\<rparr>"

text \<open>The same projectile at another depth.\<close>

definition movedBullet :: "real \<Rightarrow> bullet" where
  "movedBullet z = flyingBullet\<lparr>bcollider := \<lparr>center = Vec3 0 1 z, sradius = 8 / 100\<rparr>\<rparr>"

text \<open>An octree that reports, for every ray, a hit ten centimetres from the origin of the ray.\<close>

definition wallWorld :: world where
  "wallWorld = \<lparr>octreeReady = True,
      rayIntersect = (\<lambda>_. Returns (Some \<lparr>rpoint = Some (JVec (Fin 0) (Fin 1) (Fin (- (1 / 10)))),
                                            rnormal = None, rdistance = Some (Fin (1 / 10))\<rparr>)),
      capsuleIntersect = (\<lambda>_. Returns None)\<rparr>"

text \<open>An octree without usable geometry: every ray reports a hit whose point is not a number.\<close>

definition nanWorld :: world where
  "nanWorld = \<lparr>octreeReady = True,
      rayIntersect = (\<lambda>_. Returns (Some \<lparr>rpoint = Some (JVec NaN NaN NaN),
                                            rnormal = None, rdistance = None\<rparr>)),
      capsuleIntersect = (\<lambda>_. Returns None)\<rparr>"




text \<open>
  A player running at full speed along the x axis on the floor, who keeps pressing right and
  jumps.
\<close>

definition runner :: player where
  "runner = (freshPlayer ''player_a'' 0)\<lparr>velocity := Vec3 5 0 0, onFloor := True,
       input := (\<lambda>k. k = ''KeyD'' \<or> k = ''Space'')\<rparr>"

text \<open>
  An octree that reports, for every capsule, a contact with the underside of an overhang:
  the unit normal points down and to the right.
\<close>

definition overhangWorld :: world where
  "overhangWorld = \<lparr>octreeReady = True, rayIntersect = (\<lambda>_. Returns None),
      capsuleIntersect = (\<lambda>_. Returns (Some \<lparr>cnormal = Some (Vec3 (3 / 5) (- (4 / 5)) 0), depth = 0\<rparr>))\<rparr>"

text \<open>The runner after one substep under the overhang.\<close>

definition runnerAfter :: player where
  "runnerAfter = runner\<lparr>velocity := Vec3 (176 / 25) (132 / 25) 0, onFloor := False,
       collider := \<lparr>cstart = Vec3 (1 / 60) (113 / 300) 0, cend = Vec3 (1 / 60) (62 / 75) 0,
                    cradius = 35 / 100\<rparr>\<rparr>"

text \<open>
  A level with a wall and an overhang: the octree reports a contact with a vertical wall facing
  left for the capsule the runner is swept to, and the underside of the overhang for every
  other capsule.
\<close>

definition mixedWorld :: world where
  "mixedWorld = \<lparr>octreeReady = True, rayIntersect = (\<lambda>_. Returns None),
      capsuleIntersect = (\<lambda>c.
        if c = \<lparr>cstart = Vec3 (1 / 60) (113 / 300) 0, cend = Vec3 (1 / 60) (62 / 75) 0,
                 cradius = 35 / 100\<rparr>
        then Returns (Some \<lparr>cnormal = Some (Vec3 (- 1) 0 0), depth = 0\<rparr>)
        else Returns (Some \<lparr>cnormal = Some (Vec3 (3 / 5) (- (4 / 5)) 0), depth = 0\<rparr>))\<rparr>"

text \<open>The runner after one substep against the wall.\<close>

definition runnerStopped :: player where
  "runnerStopped = runner\<lparr>velocity := Vec3 0 8 0, onFloor := False,
       collider := \<lparr>cstart = Vec3 (1 / 60) (113 / 300) 0, cend = Vec3 (1 / 60) (62 / 75) 0,
                    cradius = 35 / 100\<rparr>\<rparr>"


text \<open>A newly connected player after one tick of free fall.\<close>

definition fallenPlayer :: player where
  "fallenPlayer = (freshPlayer ''player_a'' 0)\<lparr>velocity := Vec3 0 (- (1 / 2)) 0,
       collider := \<lparr>cstart = Vec3 0 (69 / 200) 0, cend = Vec3 0 (159 / 200) 0, cradius = 35 / 100\<rparr>\<rparr>"

section \<open>Reachable states and predicates of the claims\<close>

text \<open>
  The states the server can be in between two callbacks: it starts empty, and every
  connection, disconnection, client message and completed tick leads to the next state.
  Identifiers, clock readings and random readings are arbitrary.
\<close>

inductive reachable :: "world \<Rightarrow> state \<Rightarrow> bool" for w :: world where
  start: "reachable w emptyState"
| connect: "reachable w s \<Longrightarrow> reachable w (onConnection k s)"
| close: "reachable w s \<Longrightarrow> reachable w (onClose k s)"
| message: "reachable w s \<Longrightarrow> reachable w (onMessage k now msg s)"
| ticked: "reachable w s \<Longrightarrow> tick w rnd now s = Inr s' \<Longrightarrow> reachable w s'"


definition healthy :: "player \<Rightarrow> bool" where
  "healthy p \<longleftrightarrow> 0 < health p \<and> health p \<le> maxHealth p"

text \<open>The magnitude of the horizontal part of a velocity.\<close>

definition horizontalSpeed :: "vec3 \<Rightarrow> real" where
  "horizontalSpeed v = vlength (Vec3 (vx v) 0 (vz v))"

section \<open>Projectile direction\<close>

text \<open>
  The forward axis rotated by a \<open>'YXZ'\<close> orientation, in closed form: the half-angle sines
  and cosines of the roll cancel.
\<close>

lemma applyEuler_forward: "applyEuler (Vec3 0 0 (-1)) (Euler x y z) =
     Vec3 (- (2 * cos (y/2) * sin (y/2) * (cos (x/2) * cos (x/2) - sin (x/2) * sin (x/2))))
      (2 * cos (x/2) * sin (x/2))
      (- ((cos (x/2) * cos (x/2) - sin (x/2) * sin (x/2)) * (cos (y/2) * cos (y/2) - sin (y/2) * sin (y/2))))"
  (is "_ = ?aim")
proof -
  define c1 c2 c3 s1 s2 s3 where d: "c1 = cos (x/2)" "c2 = cos (y/2)" "c3 = cos (z/2)"
    "s1 = sin (x/2)" "s2 = sin (y/2)" "s3 = sin (z/2)"
  have u1: "s1 * s1 = 1 - c1 * c1" and u2: "s2 * s2 = 1 - c2 * c2" and u3: "s3 * s3 = 1 - c3 * c3"
    using sin_cos_squared_add [of "x/2"] sin_cos_squared_add [of "y/2"] sin_cos_squared_add [of "z/2"]
    by (simp_all add: d power2_eq_square)
  have q: "setFromEuler (Euler x y z) = Quaternion (s1 * c2 * c3 + c1 * s2 * s3)
                    (c1 * s2 * c3 - s1 * c2 * s3)
                    (c1 * c2 * s3 - s1 * s2 * c3)
                    (c1 * c2 * c3 + s1 * s2 * s3)"
    by (simp add: setFromEuler_def Let_def d)
  have a: "?aim = Vec3 (- (2 * c2 * s2 * (c1 * c1 - s1 * s1))) (2 * c1 * s1)
      (- ((c1 * c1 - s1 * s1) * (c2 * c2 - s2 * s2)))"
    by (simp add: d)
  have u: "s3 * s3 + c3 * c3 = 1" "s2 * s2 + c2 * c2 = 1" using u2 u3 by simp_all
  have X: "(c1 * c2 * c3 + s1 * s2 * s3) * (2 * (c1 * s2 * c3 - s1 * c2 * s3))
      + (c1 * c2 * s3 - s1 * s2 * c3) * (2 * (s1 * c2 * c3 + c1 * s2 * s3))
      = (2 * c2 * s2 * (c1 * c1 - s1 * s1)) * (s3 * s3 + c3 * c3)"
    by (simp add: algebra_simps)
  have Y: "(c1 * c2 * c3 + s1 * s2 * s3) * (2 * (s1 * c2 * c3 + c1 * s2 * s3))
      - (c1 * c2 * s3 - s1 * s2 * c3) * (2 * (c1 * s2 * c3 - s1 * c2 * s3))
      = 2 * c1 * s1 * ((s3 * s3 + c3 * c3) * (s2 * s2 + c2 * c2))"
    by (simp add: algebra_simps)
  have Z: "(s1 * c2 * c3 + c1 * s2 * s3) * (2 * (s1 * c2 * c3 + c1 * s2 * s3))
      + (c1 * s2 * c3 - s1 * c2 * s3) * (2 * (c1 * s2 * c3 - s1 * c2 * s3))
      = 2 * (s1 * s1 * (c2 * c2) + c1 * c1 * (s2 * s2)) * (s3 * s3 + c3 * c3)"
    by (simp add: algebra_simps)
  have Z': "1 - 2 * (s1 * s1 * (c2 * c2) + c1 * c1 * (s2 * s2)) = (c1 * c1 - s1 * s1) * (c2 * c2 - s2 * s2)"
    unfolding u1 u2 by (simp add: algebra_simps)
  have "vx (applyQuaternion (Vec3 0 0 (-1)) (Quaternion (s1 * c2 * c3 + c1 * s2 * s3)
                    (c1 * s2 * c3 - s1 * c2 * s3)
                    (c1 * c2 * s3 - s1 * s2 * c3)
                    (c1 * c2 * c3 + s1 * s2 * s3))) = - ((c1 * c2 * c3 + s1 * s2 * s3) * (2 * (c1 * s2 * c3 - s1 * c2 * s3))
      + (c1 * c2 * s3 - s1 * s2 * c3) * (2 * (s1 * c2 * c3 + c1 * s2 * s3)))"
    by (simp add: applyQuaternion_def Let_def algebra_simps)
  then have x: "vx (applyEuler (Vec3 0 0 (-1)) (Euler x y z)) = vx ?aim"
    unfolding X u applyEuler_def q a by simp
  have "vy (applyQuaternion (Vec3 0 0 (-1)) (Quaternion (s1 * c2 * c3 + c1 * s2 * s3)
                    (c1 * s2 * c3 - s1 * c2 * s3)
                    (c1 * c2 * s3 - s1 * s2 * c3)
                    (c1 * c2 * c3 + s1 * s2 * s3))) = (c1 * c2 * c3 + s1 * s2 * s3) * (2 * (s1 * c2 * c3 + c1 * s2 * s3))
      - (c1 * c2 * s3 - s1 * s2 * c3) * (2 * (c1 * s2 * c3 - s1 * c2 * s3))"
    by (simp add: applyQuaternion_def Let_def algebra_simps)
  then have y: "vy (applyEuler (Vec3 0 0 (-1)) (Euler x y z)) = vy ?aim"
    unfolding Y u applyEuler_def q a by simp
  have "vz (applyQuaternion (Vec3 0 0 (-1)) (Quaternion (s1 * c2 * c3 + c1 * s2 * s3)
                    (c1 * s2 * c3 - s1 * c2 * s3)
                    (c1 * c2 * s3 - s1 * s2 * c3)
                    (c1 * c2 * c3 + s1 * s2 * s3))) = - (1 - ((s1 * c2 * c3 + c1 * s2 * s3) * (2 * (s1 * c2 * c3 + c1 * s2 * s3))
      + (c1 * s2 * c3 - s1 * c2 * s3) * (2 * (c1 * s2 * c3 - s1 * c2 * s3))))"
    by (simp add: applyQuaternion_def Let_def algebra_simps)
  then have z: "vz (applyEuler (Vec3 0 0 (-1)) (Euler x y z)) = vz ?aim"
    unfolding Z u applyEuler_def q a using Z' by simp
  show ?thesis
    using x y z by (simp add: vec3.expand)
qed


lemma applyEuler_forward_roll:
  "applyEuler (Vec3 0 0 (-1)) (Euler x y z) = applyEuler (Vec3 0 0 (-1)) (Euler x y z')"
  by (simp only: applyEuler_forward)

text \<open>
  Claim C7. For every orientation accepted from client input (the handler clamps pitch to
  \<open>\<plusminus>\<pi>/2\<close> and stores yaw and roll as sent), the velocity of the projectile spawned for the
  player is the same whatever the roll component is: two inputs that differ only in roll give the
  same projectile velocity. (Numbers are reals here: rounding is not modelled.)
\<close>

theorem bullet_direction_ignores_roll:
  "bvelocity (newBullet (onInput (Some (JVec x y (Fin z))) keys p) n now) =
   bvelocity (newBullet (onInput (Some (JVec x y (Fin z'))) keys p) n now)"
  by (simp add: newBullet_def bulletDirection_def onInput_def applyRotation_def
        applyEuler_forward_roll [of _ _ z z'])

section \<open>Geometry-query faults\<close>

lemma safeRayIntersect_not_ready: "\<not> octreeReady w \<Longrightarrow> safeRayIntersect w r = None"
  by (simp add: safeRayIntersect_def)

lemma safeRayIntersect_throws: "rayIntersect w r = Throws \<Longrightarrow> safeRayIntersect w r = None"
  by (simp add: safeRayIntersect_def)

lemma safeRayIntersect_incomplete:
  "rayIntersect w r = Returns (Some h) \<Longrightarrow> rpoint h = None \<Longrightarrow> safeRayIntersect w r = None"
  by (simp add: safeRayIntersect_def)

lemma updatePlayer_throws:
  "capsuleIntersect w = (\<lambda>_. Throws) \<Longrightarrow> updatePlayer w p dt = Inl QueryFault"
  by (simp add: updatePlayer_def Let_def)

lemma updatePlayers_throws:
  "capsuleIntersect w = (\<lambda>_. Throws) \<Longrightarrow> ps \<noteq> [] \<Longrightarrow> updatePlayers w dt ps = Inl QueryFault"
  by (cases ps) (simp_all add: updatePlayer_throws)

lemma tick_throws:
  "capsuleIntersect w = (\<lambda>_. Throws) \<Longrightarrow> players s \<noteq> [] \<Longrightarrow> tick w rnd now s = Inl QueryFault"
  by (simp add: tick_def PHYSICS_SUBSTEPS_def eval_nat_numeral substep_def updatePlayers_throws)

lemma updatePlayer_incomplete:
  "capsuleIntersect w = (\<lambda>_. Returns (Some c)) \<Longrightarrow> cnormal c = None \<Longrightarrow>
   updatePlayer w p dt = Inl TypeError"
  by (simp add: updatePlayer_def Let_def respond_def)

lemma tick_incomplete:
  assumes "capsuleIntersect w = (\<lambda>_. Returns (Some c))" "cnormal c = None" "players s \<noteq> []"
  shows "tick w rnd now s = Inl TypeError"
proof -
  obtain q qs where "map (updatePlayerState now) (players s) = q # qs"
    using assms(3) by (cases "players s") auto
  then show ?thesis
    using updatePlayer_incomplete [OF assms(1,2)]
    by (simp add: tick_def PHYSICS_SUBSTEPS_def eval_nat_numeral substep_def)
qed

text \<open>
  Claim C1, at the failing inputs. The ray cast of the facade answers "no hit" when the octree
  is not ready, when the query throws and when the hit it returns has no point. The capsule
  sweep of \<open>updatePlayer\<close> has no such guard: when the query throws, or returns a contact
  without a normal, the exception leaves \<open>updatePlayer\<close>, and the tick of a server with one
  connected player aborts.
\<close>

theorem capsule_sweep_fault_aborts_tick:
  "safeRayIntersect openWorld r = None \<and>
   safeRayIntersect throwingWorld r = None \<and>
   safeRayIntersect incompleteWorld r = None \<and>
   updatePlayer throwingWorld (freshPlayer ''player_a'' 0) substepDelta = Inl QueryFault \<and>
   tick throwingWorld rnd now (onConnection ''player_a'' emptyState) = Inl QueryFault \<and>
   updatePlayer incompleteWorld (freshPlayer ''player_a'' 0) substepDelta = Inl TypeError \<and>
   tick incompleteWorld rnd now (onConnection ''player_a'' emptyState) = Inl TypeError"
proof -
  have c: "capsuleIntersect throwingWorld = (\<lambda>_. Throws)" by (simp add: throwingWorld_def)
  have i: "capsuleIntersect incompleteWorld = (\<lambda>_. Returns (Some \<lparr>cnormal = None, depth = 0\<rparr>))"
    "cnormal \<lparr>cnormal = None, depth = 0\<rparr> = None"
    by (simp_all add: incompleteWorld_def)
  have p: "players (onConnection ''player_a'' emptyState) \<noteq> []"
    by (simp add: onConnection_def emptyState_def)
  have r: "rayIntersect throwingWorld r = Throws" by (simp add: throwingWorld_def)
  have n: "\<not> octreeReady openWorld" by (simp add: openWorld_def)
  have h: "rayIntersect incompleteWorld r = Returns (Some \<lparr>rpoint = None, rnormal = None, rdistance = None\<rparr>)"
    "rpoint \<lparr>rpoint = None, rnormal = None, rdistance = None\<rparr> = None"
    by (simp_all add: incompleteWorld_def)
  show ?thesis
    using safeRayIntersect_not_ready [OF n] safeRayIntersect_throws [OF r]
      safeRayIntersect_incomplete [OF h] updatePlayer_throws [OF c] tick_throws [OF c p]
      updatePlayer_incomplete [OF i] tick_incomplete [OF i p]
    by simp
qed

section \<open>Health of live players\<close>

lemma healthy_freshPlayer: "healthy (freshPlayer k n)"
  by (simp add: healthy_def freshPlayer_def)

lemma healthy_putPlayer:
  "healthy v \<Longrightarrow> list_all healthy ps \<Longrightarrow> list_all healthy (putPlayer v ps)"
  by (induction ps) auto

lemma healthy_deletePlayer: "list_all healthy ps \<Longrightarrow> list_all healthy (deletePlayer k ps)"
  by (simp add: deletePlayer_def list_all_iff)

lemma healthy_storePlayer:
  "healthy v \<Longrightarrow> list_all healthy ps \<Longrightarrow> list_all healthy (storePlayer v ps)"
  by (auto simp: storePlayer_def list_all_iff)

lemma getPlayer_member: "getPlayer k ps = Some p \<Longrightarrow> p \<in> set ps \<and> pid p = k"
  by (auto simp: getPlayer_def find_Some_iff)

lemma healthy_onJoin: "healthy p \<Longrightarrow> healthy (onJoin n p)"
  by (simp add: onJoin_def healthy_def split: option.splits)

lemma healthy_onInput: "healthy p \<Longrightarrow> healthy (onInput r keys p)"
  by (simp add: onInput_def applyRotation_def healthy_def split: option.splits)

lemma healthy_onShoot: "healthy p \<Longrightarrow> healthy (fst (onShoot now n p))"
  by (simp add: onShoot_def healthy_def Let_def)

lemma healthy_onReload: "healthy p \<Longrightarrow> healthy (onReload now p)"
  by (simp add: onReload_def healthy_def)

lemma healthy_onMessage:
  assumes "list_all healthy (players s)"
  shows "list_all healthy (players (onMessage k now msg s))"
proof (cases "getPlayer k (players s)")
  case None
  then show ?thesis using assms by (simp add: onMessage_def split: message.splits)
next
  case (Some p)
  then have hp: "healthy p" using assms getPlayer_member [OF Some] by (auto simp: list_all_iff)
  show ?thesis
  proof (cases msg)
    case Shoot
    have "healthy (fst (onShoot now (nextBulletId s) p))" using hp by (rule healthy_onShoot)
    then show ?thesis using Some Shoot assms
      by (auto simp: onMessage_def healthy_storePlayer split: prod.splits option.splits)
  qed (use Some hp assms in \<open>simp_all add: onMessage_def healthy_storePlayer healthy_onJoin
          healthy_onInput healthy_onReload\<close>)
qed

lemma healthy_updatePlayerState: "healthy p \<Longrightarrow> healthy (updatePlayerState now p)"
  by (simp add: updatePlayerState_def healthy_def)

lemma updatePlayer_health:
  "updatePlayer w p dt = Inr p' \<Longrightarrow> health p' = health p \<and> maxHealth p' = maxHealth p"
  by (auto simp: updatePlayer_def Let_def respond_def failSafe_def
      split: outcome.splits option.splits sum.splits if_splits)

lemma healthy_updatePlayers:
  "updatePlayers w dt ps = Inr ps' \<Longrightarrow> list_all healthy ps \<Longrightarrow> list_all healthy ps'"
proof (induction ps arbitrary: ps')
  case Nil
  then show ?case by simp
next
  case (Cons p ps)
  then show ?case
    by (auto simp: healthy_def split: sum.splits dest!: updatePlayer_health)
qed

lemma healthy_resolveHit:
  assumes "list_all healthy (fst pd)" "healthy victim"
  shows "list_all healthy (fst (resolveHit now b victim pd))"
proof (cases "health victim - 20 \<le> 0")
  case True
  then show ?thesis using assms
    by (auto simp: resolveHit_def Let_def deletePlayer_def storePlayer_def list_all_iff healthy_def)
next
  case False
  then have "healthy (victim\<lparr>health := health victim - 20\<rparr>)"
    using assms(2) by (simp add: healthy_def)
  then show ?thesis using False assms(1)
    by (simp add: resolveHit_def Let_def healthy_storePlayer)
qed

lemma healthy_collide:
  assumes "list_all healthy (fst acc)"
  shows "list_all healthy (fst (collide now b acc))"
proof -
  obtain ps dead kept where acc: "acc = (ps, dead, kept)" by (cases acc) auto
  show ?thesis
  proof (cases "find (struckBy b) ps")
    case None
    then show ?thesis using assms acc by (simp add: collide_def)
  next
    case (Some victim)
    then have "victim \<in> set ps" by (auto simp: find_Some_iff)
    then have "healthy victim" using assms acc by (simp add: list_all_iff)
    then have "list_all healthy (fst (resolveHit now b victim (ps, dead)))"
      using assms acc healthy_resolveHit [of "(ps, dead)"] by simp
    then show ?thesis using Some acc by (auto simp: collide_def split: prod.splits)
  qed
qed

lemma healthy_foldr_collide:
  "list_all healthy (fst acc) \<Longrightarrow> list_all healthy (fst (foldr (collide now) bs acc))"
  by (induction bs) (simp_all add: healthy_collide)

lemma healthy_checkCollisions:
  "list_all healthy (players s) \<Longrightarrow> list_all healthy (players (checkCollisions now s))"
  using healthy_foldr_collide [of "(players s, deadPlayers s, [])" now "bullets s"]
  by (auto simp: checkCollisions_def split: prod.splits)

lemma healthy_substep:
  "substep w now s = Inr s' \<Longrightarrow> list_all healthy (players s) \<Longrightarrow> list_all healthy (players s')"
  by (auto simp: substep_def split: sum.splits
      intro!: healthy_checkCollisions dest: healthy_updatePlayers)

lemma healthy_substeps:
  "substeps w now n s = Inr s' \<Longrightarrow> list_all healthy (players s) \<Longrightarrow> list_all healthy (players s')"
proof (induction n arbitrary: s)
  case 0
  then show ?case by simp
next
  case (Suc n)
  then show ?case by (auto split: sum.splits dest: healthy_substep)
qed

lemma healthy_respawn:
  "list_all healthy (fst pd) \<Longrightarrow> list_all healthy (fst (respawn now pd e))"
  by (simp add: respawn_def healthy_putPlayer healthy_freshPlayer)

lemma healthy_foldl_respawn:
  "list_all healthy (fst pd) \<Longrightarrow> list_all healthy (fst (foldl (respawn now) pd es))"
  by (induction es arbitrary: pd) (simp_all add: healthy_respawn)

lemma healthy_respawnPlayers:
  "list_all healthy (players s) \<Longrightarrow> list_all healthy (players (respawnPlayers now s))"
  using healthy_foldl_respawn [of "(players s, deadPlayers s)" now "deadPlayers s"]
  by (auto simp: respawnPlayers_def split: prod.splits)

lemma medkitMaintenance_players:
  "medkitMaintenance w rnd now s = Inr s' \<Longrightarrow> players s' = players s"
  by (auto simp: medkitMaintenance_def split: if_splits sum.splits)

lemma healthy_pickups: "healthy p \<Longrightarrow> healthy (fst (pickups p ms))"
proof (induction ms arbitrary: p)
  case Nil
  then show ?case by simp
next
  case (Cons m ms)
  have "healthy (p\<lparr>health := min (maxHealth p) (health p + MEDKIT_HEAL_AMOUNT)\<rparr>)"
    using Cons.prems by (simp add: healthy_def MEDKIT_HEAL_AMOUNT_def)
  then show ?case using Cons by (simp add: split_def)
qed

lemma healthy_checkMedkitPickups:
  "list_all healthy ps \<Longrightarrow> list_all healthy (fst (checkMedkitPickups ps ms))"
proof (induction ps arbitrary: ms)
  case Nil
  then show ?case by simp
next
  case (Cons p ps)
  then show ?case using healthy_pickups [of p ms] by (simp add: split_def)
qed

lemma healthy_collectMedkits:
  "list_all healthy (players s) \<Longrightarrow> list_all healthy (players (collectMedkits s))"
  using healthy_checkMedkitPickups [of "players s" "medkits s"]
  by (auto simp: collectMedkits_def split: prod.splits)

lemma healthy_tick:
  assumes "tick w rnd now s = Inr s'" "list_all healthy (players s)"
  shows "list_all healthy (players s')"
proof -
  obtain s1 s2 where
    1: "substeps w now PHYSICS_SUBSTEPS (s\<lparr>players := map (updatePlayerState now) (players s)\<rparr>) = Inr s1"
    and 2: "medkitMaintenance w rnd now (respawnPlayers now s1) = Inr s2"
    and 3: "s' = collectMedkits s2"
    using assms(1) by (auto simp: tick_def split: sum.splits)
  have "list_all healthy (map (updatePlayerState now) (players s))"
    using assms(2) by (simp add: list_all_iff healthy_updatePlayerState)
  then have "list_all healthy (players s1)" using healthy_substeps [OF 1] by simp
  then have "list_all healthy (players s2)"
    using medkitMaintenance_players [OF 2] healthy_respawnPlayers by simp
  then show ?thesis using 3 healthy_collectMedkits by simp
qed

text \<open>
  Claim C3. In every state the server reaches (so at every tick boundary), every player of the
  live set has \<open>0 < health \<le> maxHealth\<close>: a hit that takes health to 0 or below removes the
  player in the same collision pass, and a medkit heals to at most \<open>maxHealth\<close>.
\<close>

theorem live_players_healthy:
  assumes "reachable w s" and "p \<in> set (players s)"
  shows "0 < health p \<and> health p \<le> maxHealth p"
proof -
  have "list_all healthy (players s)"
    using assms(1)
  proof (induction rule: reachable.induct)
    case start
    show ?case by (simp add: emptyState_def)
  next
    case (connect s k)
    then show ?case by (simp add: onConnection_def healthy_putPlayer healthy_freshPlayer)
  next
    case (close s k)
    then show ?case by (simp add: onClose_def healthy_deletePlayer)
  next
    case (message s k now msg)
    then show ?case by (simp add: healthy_onMessage)
  next
    case (ticked s rnd now s')
    then show ?case using healthy_tick by blast
  qed
  then show ?thesis using assms(2) by (simp add: list_all_iff healthy_def)
qed

lemma tick_fall:
  "tick openWorld (\<lambda>_. 0) 0 (onConnection ''player_a'' emptyState)
   = Inr (emptyState\<lparr>players := [fallenPlayer]\<rparr>)"
  by (simp add: tick_def PHYSICS_SUBSTEPS_def eval_nat_numeral substep_def updateBullets_def
      checkCollisions_def respawnPlayers_def medkitMaintenance_def MEDKIT_RESPAWN_INTERVAL_def
      collectMedkits_def emptyState_def onConnection_def fallenPlayer_def updatePlayerState_def
      substepDelta_def deltaTime_def TICK_TIME_def TICK_RATE_def
      updatePlayer_def Let_def accelerate_def damp_def clampHorizontal_def freshPlayer_def
      applyEuler_forward setY_def normalize_def vlength_def lengthSq_def multiplyScalar_def
      crossVectors_def vadd_def GRAVITY_def PLAYER_SPEED_def MAX_SPEED_def openWorld_def respond_def
      failSafe_def translate_def spawnCapsule_def)

theorem live_players_healthy_witness:
  "reachable openWorld (emptyState\<lparr>players := [fallenPlayer]\<rparr>) \<and>
   fallenPlayer \<in> set (players (emptyState\<lparr>players := [fallenPlayer]\<rparr>)) \<and>
   0 < health fallenPlayer \<and> health fallenPlayer \<le> maxHealth fallenPlayer"
proof -
  have "reachable openWorld (onConnection ''player_a'' emptyState)"
    by (rule reachable.connect) (rule reachable.start)
  then have r: "reachable openWorld (emptyState\<lparr>players := [fallenPlayer]\<rparr>)"
    using tick_fall by (rule reachable.ticked)
  have m: "fallenPlayer \<in> set (players (emptyState\<lparr>players := [fallenPlayer]\<rparr>))" by simp
  show ?thesis using r m live_players_healthy [OF r m] by simp
qed

section \<open>Medkit pickup\<close>

lemma pickups_full_health: "maxHealth p \<le> health p \<Longrightarrow> pickups p ms = (p, ms)"
  by (induction ms) auto

lemma pickups_claim:
  "\<not> pickedUp m \<Longrightarrow> inReach p m \<Longrightarrow> health p < maxHealth p \<Longrightarrow>
   pickups p [m] = (p\<lparr>health := min (maxHealth p) (health p + MEDKIT_HEAL_AMOUNT)\<rparr>, [m\<lparr>pickedUp := True\<rparr>])"
  by simp

lemma collect_claim:
  "\<not> pickedUp m \<Longrightarrow> inReach p m \<Longrightarrow> health p < maxHealth p \<Longrightarrow>
   collectMedkits (s\<lparr>players := [p], medkits := [m]\<rparr>) =
   s\<lparr>players := [p\<lparr>health := min (maxHealth p) (health p + MEDKIT_HEAL_AMOUNT)\<rparr>], medkits := []\<rparr>"
  by (simp add: collectMedkits_def)

lemma collect_full_health:
  "\<not> pickedUp m \<Longrightarrow> maxHealth p \<le> health p \<Longrightarrow>
   collectMedkits (s\<lparr>players := [p], medkits := [m]\<rparr>) = s\<lparr>players := [p], medkits := [m]\<rparr>"
  by (simp add: collectMedkits_def pickups_full_health)

lemma collect_no_flagged: "m \<in> set (medkits (collectMedkits s)) \<Longrightarrow> \<not> pickedUp m"
  by (auto simp: collectMedkits_def split: prod.splits)

lemma tick_no_flagged:
  "tick w rnd now s = Inr s' \<Longrightarrow> m \<in> set (medkits s') \<Longrightarrow> \<not> pickedUp m"
  by (auto simp: tick_def split: sum.splits dest: collect_no_flagged)

text \<open>
  Claim C9. A player at full health claims nothing: the pickup pass returns the player and
  every medkit as they were, also for a medkit within reach (distance below 1 of the start
  point of the collider). A player below \<open>maxHealth\<close> within reach of an unclaimed medkit is
  healed to \<open>min maxHealth (health + MEDKIT_HEAL_AMOUNT)\<close>, the medkit is flagged, and the
  removal loop of the same tick drops it; no flagged medkit is left after a tick.
\<close>

theorem medkit_claim_needs_missing_health:
  "(maxHealth p \<le> health p \<longrightarrow> pickups p ms = (p, ms)) \<and>
   (\<not> pickedUp m \<and> maxHealth p \<le> health p \<longrightarrow>
      collectMedkits (s\<lparr>players := [p], medkits := [m]\<rparr>) = s\<lparr>players := [p], medkits := [m]\<rparr>) \<and>
   (\<not> pickedUp m \<and> inReach p m \<and> health p < maxHealth p \<longrightarrow>
      pickups p [m] = (p\<lparr>health := min (maxHealth p) (health p + MEDKIT_HEAL_AMOUNT)\<rparr>,
                       [m\<lparr>pickedUp := True\<rparr>]) \<and>
      collectMedkits (s\<lparr>players := [p], medkits := [m]\<rparr>) =
        s\<lparr>players := [p\<lparr>health := min (maxHealth p) (health p + MEDKIT_HEAL_AMOUNT)\<rparr>],
          medkits := []\<rparr>) \<and>
   (tick w rnd now s = Inr s' \<and> m' \<in> set (medkits s') \<longrightarrow> \<not> pickedUp m')"
  using pickups_full_health [of p ms] collect_full_health [of m p s]
    pickups_claim [of m p] collect_claim [of m p s] tick_no_flagged [of w rnd now s s' m']
  by blast


lemma inReach_spawnKit: "inReach (freshPlayer k n\<lparr>health := h\<rparr>) spawnKit"
  by (simp add: inReach_def freshPlayer_def spawnCapsule_def spawnKit_def Let_def)

lemma tick_idle:
  "tick openWorld rnd 0 (emptyState\<lparr>medkits := [spawnKit]\<rparr>) = Inr (emptyState\<lparr>medkits := [spawnKit]\<rparr>)"
  by (simp add: tick_def PHYSICS_SUBSTEPS_def eval_nat_numeral substep_def updateBullets_def
      checkCollisions_def respawnPlayers_def medkitMaintenance_def MEDKIT_RESPAWN_INTERVAL_def
      collectMedkits_def emptyState_def spawnKit_def)

theorem medkit_claim_needs_missing_health_witness:
  "inReach (freshPlayer ''player_a'' 0) spawnKit \<and>
   pickups (freshPlayer ''player_a'' 0) [spawnKit] = (freshPlayer ''player_a'' 0, [spawnKit]) \<and>
   collectMedkits (emptyState\<lparr>players := [freshPlayer ''player_a'' 0], medkits := [spawnKit]\<rparr>) =
     emptyState\<lparr>players := [freshPlayer ''player_a'' 0], medkits := [spawnKit]\<rparr> \<and>
   pickups ((freshPlayer ''player_a'' 0)\<lparr>health := 70\<rparr>) [spawnKit] =
     ((freshPlayer ''player_a'' 0)\<lparr>health := 100\<rparr>, [spawnKit\<lparr>pickedUp := True\<rparr>]) \<and>
   collectMedkits (emptyState\<lparr>players := [(freshPlayer ''player_a'' 0)\<lparr>health := 70\<rparr>],
                              medkits := [spawnKit]\<rparr>) =
     emptyState\<lparr>players := [(freshPlayer ''player_a'' 0)\<lparr>health := 100\<rparr>], medkits := []\<rparr> \<and>
   tick openWorld (\<lambda>_. 0) 0 (emptyState\<lparr>medkits := [spawnKit]\<rparr>) = Inr (emptyState\<lparr>medkits := [spawnKit]\<rparr>) \<and>
   \<not> pickedUp spawnKit"
proof -
  have k: "\<not> pickedUp spawnKit" by (simp add: spawnKit_def)
  have r: "inReach (freshPlayer ''player_a'' 0) spawnKit"
    using inReach_spawnKit [where k = "''player_a''" and n = 0 and h = 100] by (simp add: freshPlayer_def)
  have f: "maxHealth (freshPlayer ''player_a'' 0) \<le> health (freshPlayer ''player_a'' 0)"
    by (simp add: freshPlayer_def)
  have h: "health ((freshPlayer ''player_a'' 0)\<lparr>health := 70\<rparr>) <
           maxHealth ((freshPlayer ''player_a'' 0)\<lparr>health := 70\<rparr>)"
    "min (maxHealth ((freshPlayer ''player_a'' 0)\<lparr>health := 70\<rparr>))
         (health ((freshPlayer ''player_a'' 0)\<lparr>health := 70\<rparr>) + MEDKIT_HEAL_AMOUNT) = 100"
    by (simp_all add: freshPlayer_def MEDKIT_HEAL_AMOUNT_def)
  have m: "spawnKit \<in> set (medkits (emptyState\<lparr>medkits := [spawnKit]\<rparr>))" by simp
  show ?thesis
    using medkit_claim_needs_missing_health [where p = "freshPlayer ''player_a'' 0"
            and ms = "[spawnKit]" and m = spawnKit and s = emptyState and w = openWorld
            and rnd = "\<lambda>_. 0" and now = 0 and s' = "emptyState\<lparr>medkits := [spawnKit]\<rparr>" and m' = spawnKit]
      medkit_claim_needs_missing_health [where p = "(freshPlayer ''player_a'' 0)\<lparr>health := 70\<rparr>"
            and ms = "[spawnKit]" and m = spawnKit and s = emptyState and w = openWorld
            and rnd = "\<lambda>_. 0" and now = 0 and s' = "emptyState\<lparr>medkits := [spawnKit]\<rparr>" and m' = spawnKit]
      k r f h m tick_idle [of "\<lambda>_. 0"] inReach_spawnKit [where k = "''player_a''" and n = 0 and h = 70]
    by simp
qed

section \<open>Respawn\<close>

lemma getPlayer_putPlayer_same: "getPlayer (pid v) (putPlayer v ps) = Some v"
  by (induction ps) (auto simp: getPlayer_def)

lemma getPlayer_putPlayer_other: "pid v \<noteq> k \<Longrightarrow> getPlayer k (putPlayer v ps) = getPlayer k ps"
  by (induction ps) (auto simp: getPlayer_def)

lemma pid_freshPlayer: "pid (freshPlayer k n) = k"
  by (simp add: freshPlayer_def)

lemma respawn_other:
  "fst e \<noteq> k \<Longrightarrow> getPlayer k (fst (respawn now pd e)) = getPlayer k (fst pd)"
  by (simp add: respawn_def getPlayer_putPlayer_other pid_freshPlayer)

lemma foldl_respawn_other:
  "k \<notin> fst ` set es \<Longrightarrow> getPlayer k (fst (foldl (respawn now) pd es)) = getPlayer k (fst pd)"
  by (induction es arbitrary: pd) (auto simp: respawn_other)

lemma foldl_respawn_live:
  assumes "distinct (map fst es)" "(k, d) \<in> set es" "respawnTime d \<le> now"
  shows "getPlayer k (fst (foldl (respawn now) pd es)) = Some (freshPlayer k (savedKills d))"
  using assms
proof (induction es arbitrary: pd)
  case Nil
  then show ?case by simp
next
  case (Cons e es)
  show ?case
  proof (cases "e = (k, d)")
    case True
    then have "k \<notin> fst ` set es" using Cons.prems(1) by auto
    then have "getPlayer k (fst (foldl (respawn now) (respawn now pd e) es))
               = getPlayer k (fst (respawn now pd e))"
      by (rule foldl_respawn_other)
    also have "\<dots> = Some (freshPlayer k (savedKills d))"
      using True Cons.prems(3) getPlayer_putPlayer_same [of "freshPlayer k (savedKills d)" "fst pd"]
      by (simp add: respawn_def pid_freshPlayer)
    finally show ?thesis by simp
  next
    case False
    then have "(k, d) \<in> set es" using Cons.prems(2) by simp
    then show ?thesis using Cons.IH [of "respawn now pd e"] Cons.prems by simp
  qed
qed

lemma respawn_dead_subset: "set (snd (respawn now pd e)) \<subseteq> set (snd pd)"
  by (auto simp: respawn_def objDelete_def)

lemma foldl_respawn_dead_subset: "set (snd (foldl (respawn now) pd es)) \<subseteq> set (snd pd)"
proof (induction es arbitrary: pd)
  case Nil
  then show ?case by simp
next
  case (Cons e es)
  then show ?case using respawn_dead_subset [of now pd e] by fastforce
qed

lemma foldl_respawn_consumed:
  assumes "(k, d) \<in> set es" "respawnTime d \<le> now"
  shows "k \<notin> fst ` set (snd (foldl (respawn now) pd es))"
  using assms
proof (induction es arbitrary: pd)
  case Nil
  then show ?case by simp
next
  case (Cons e es)
  show ?case
  proof (cases "e = (k, d)")
    case True
    then have "k \<notin> fst ` set (snd (respawn now pd e))"
      using Cons.prems(2) by (auto simp: respawn_def objDelete_def)
    then show ?thesis using foldl_respawn_dead_subset [of now "respawn now pd e" es] by auto
  next
    case False
    then show ?thesis using Cons by simp
  qed
qed

lemma respawnPlayers_live:
  assumes "distinct (map fst (deadPlayers s))" and "(k, d) \<in> set (deadPlayers s)"
    and "respawnTime d \<le> now"
  shows "getPlayer k (players (respawnPlayers now s)) = Some (freshPlayer k (savedKills d))"
  using foldl_respawn_live [OF assms, of "(players s, deadPlayers s)"]
  by (auto simp: respawnPlayers_def split: prod.splits)

lemma respawnPlayers_consumed:
  assumes "(k, d) \<in> set (deadPlayers s)" and "respawnTime d \<le> now"
  shows "k \<notin> fst ` set (deadPlayers (respawnPlayers now s))"
  using foldl_respawn_consumed [OF assms, of "(players s, deadPlayers s)"]
  by (auto simp: respawnPlayers_def split: prod.splits)

lemma onClose_removes: "getPlayer k (players (onClose k s)) = None"
  by (auto simp: onClose_def deletePlayer_def getPlayer_def find_None_iff)

lemma onClose_keeps_pending: "deadPlayers (onClose k s) = deadPlayers s"
  by (simp add: onClose_def)

text \<open>
  Claim C10. The respawn sweep consumes every pending record whose time has come and puts a
  fresh player under that id into the live set: spawn pose, zero velocity, full health and ammo,
  the saved kill count, and the id as name. The close handler removes the live player only and
  leaves the pending record, so the sweep resurrects a player who disconnected while waiting.
\<close>

theorem expired_pending_respawns_even_after_disconnect:
  assumes "distinct (map fst (deadPlayers s))" and "(k, d) \<in> set (deadPlayers s)"
    and "respawnTime d \<le> now"
  shows "getPlayer k (players (respawnPlayers now s)) = Some (freshPlayer k (savedKills d)) \<and>
         k \<notin> fst ` set (deadPlayers (respawnPlayers now s)) \<and>
         getPlayer k (players (onClose k s)) = None \<and>
         getPlayer k (players (respawnPlayers now (onClose k s))) = Some (freshPlayer k (savedKills d)) \<and>
         collider (freshPlayer k (savedKills d)) = spawnCapsule \<and>
         velocity (freshPlayer k (savedKills d)) = Vec3 0 0 0 \<and>
         health (freshPlayer k (savedKills d)) = 100 \<and> maxHealth (freshPlayer k (savedKills d)) = 100 \<and>
         ammo (freshPlayer k (savedKills d)) = 30 \<and> maxAmmo (freshPlayer k (savedKills d)) = 30 \<and>
         kills (freshPlayer k (savedKills d)) = savedKills d \<and> name (freshPlayer k (savedKills d)) = k"
proof -
  have c: "distinct (map fst (deadPlayers (onClose k s)))" "(k, d) \<in> set (deadPlayers (onClose k s))"
    using assms by (simp_all add: onClose_keeps_pending)
  show ?thesis
    using respawnPlayers_live [OF assms] respawnPlayers_consumed [OF assms(2,3)]
      respawnPlayers_live [OF c assms(3)] onClose_removes [of k s]
    by (simp add: freshPlayer_def)
qed

theorem expired_pending_respawns_even_after_disconnect_witness:
  "distinct (map fst (deadPlayers awaitingState)) \<and>
   (''player_b'', \<lparr>respawnTime = 3000, savedKills = 2\<rparr>) \<in> set (deadPlayers awaitingState) \<and>
   getPlayer ''player_b'' (players (respawnPlayers 3000 (onClose ''player_b'' awaitingState)))
     = Some (freshPlayer ''player_b'' 2) \<and>
   ''player_b'' \<notin> fst ` set (deadPlayers (respawnPlayers 3000 awaitingState))"
proof -
  have a: "distinct (map fst (deadPlayers awaitingState))"
    and b: "(''player_b'', \<lparr>respawnTime = 3000, savedKills = 2\<rparr>) \<in> set (deadPlayers awaitingState)"
    and c: "respawnTime \<lparr>respawnTime = 3000, savedKills = 2\<rparr> \<le> 3000"
    by (simp_all add: awaitingState_def emptyState_def)
  show ?thesis
    using a b expired_pending_respawns_even_after_disconnect [OF a b c] by simp
qed

section \<open>Projectile lifetime\<close>

lemma sqrt_gt_iff: "0 \<le> c \<Longrightarrow> sqrt x > c \<longleftrightarrow> x > c * c"
proof -
  assume c: "0 \<le> c"
  have "sqrt (c * c) = c" using c by simp
  then show ?thesis using real_sqrt_less_iff [of "c * c" x] by simp
qed

lemma vlength_gt_iff: "0 \<le> c \<Longrightarrow> vlength v > c \<longleftrightarrow> lengthSq v > c * c"
  by (simp add: vlength_def sqrt_gt_iff)

lemma updateBullets_filter:
  "updateBullets w dt now bs =
   map (\<lambda>b. advance b dt) (filter (\<lambda>b. \<not> terminates w now (center (bcollider b)) (advance b dt)) bs)"
  by (induction bs) (simp_all add: updateBullets_def)

lemma terminates_age: "now - spawnTime b > 3000 \<Longrightarrow> terminates w now prev b"
  by (simp add: terminates_def Let_def)

lemma terminates_range: "vlength (center (bcollider b)) > 300 \<Longrightarrow> terminates w now prev b"
  by (simp add: terminates_def Let_def)

lemma terminates_world:
  assumes "safeRayIntersect w \<lparr>origin = prev,
             direction = (if vlength (subVectors (center (bcollider b)) prev) > 0
                          then normalize (subVectors (center (bcollider b)) prev)
                          else subVectors (center (bcollider b)) prev)\<rparr> = Some h"
    and "distance h = Some d" and "jle d (Fin (vlength (subVectors (center (bcollider b)) prev)))"
  shows "terminates w now prev b"
  using assms by (simp add: terminates_def Let_def)

lemma survivor_bounds:
  "\<not> terminates w now prev b \<Longrightarrow> now - spawnTime b \<le> 3000 \<and> vlength (center (bcollider b)) \<le> 300"
  by (auto simp: terminates_def Let_def)

lemma updateBullets_survivor:
  "b' \<in> set (updateBullets w dt now bs) \<Longrightarrow>
   now - spawnTime b' \<le> 3000 \<and> vlength (center (bcollider b')) \<le> 300"
  by (auto simp: updateBullets_filter dest: survivor_bounds)

lemma collide_bullets: "set (snd (snd (collide now b acc))) \<subseteq> insert b (set (snd (snd acc)))"
  by (auto simp: collide_def split: prod.splits option.splits)

lemma foldr_collide_bullets:
  "set (snd (snd (foldr (collide now) bs acc))) \<subseteq> set bs \<union> set (snd (snd acc))"
proof (induction bs)
  case Nil
  then show ?case by simp
next
  case (Cons b bs)
  then show ?case using collide_bullets [of now b "foldr (collide now) bs acc"] by auto
qed

lemma checkCollisions_bullets: "set (bullets (checkCollisions now s)) \<subseteq> set (bullets s)"
  using foldr_collide_bullets [of now "bullets s" "(players s, deadPlayers s, [])"]
  by (auto simp: checkCollisions_def split: prod.splits)

lemma substep_bullets:
  "substep w now s = Inr s' \<Longrightarrow> b \<in> set (bullets s') \<Longrightarrow> now - spawnTime b \<le> 3000"
  using checkCollisions_bullets
  by (fastforce simp: substep_def split: sum.splits dest: updateBullets_survivor)

lemma substeps_bullets:
  "substeps w now (Suc n) s = Inr s' \<Longrightarrow> b \<in> set (bullets s') \<Longrightarrow> now - spawnTime b \<le> 3000"
proof (induction n arbitrary: s)
  case 0
  then show ?case by (auto split: sum.splits dest: substep_bullets)
next
  case (Suc n)
  then show ?case by (auto split: sum.splits)
qed

lemma respawnPlayers_bullets: "bullets (respawnPlayers now s) = bullets s"
  by (simp add: respawnPlayers_def split: prod.splits)

lemma medkitMaintenance_bullets: "medkitMaintenance w rnd now s = Inr s' \<Longrightarrow> bullets s' = bullets s"
  by (auto simp: medkitMaintenance_def split: if_splits sum.splits)

lemma collectMedkits_bullets: "bullets (collectMedkits s) = bullets s"
  by (simp add: collectMedkits_def split: prod.splits)

lemma tick_bullets:
  assumes "tick w rnd now s = Inr s'" "b \<in> set (bullets s')"
  shows "now - spawnTime b \<le> 3000"
proof -
  obtain s1 s2 where
    1: "substeps w now PHYSICS_SUBSTEPS (s\<lparr>players := map (updatePlayerState now) (players s)\<rparr>) = Inr s1"
    and 2: "medkitMaintenance w rnd now (respawnPlayers now s1) = Inr s2"
    and 3: "s' = collectMedkits s2"
    using assms(1) by (auto simp: tick_def split: sum.splits)
  have "bullets s' = bullets s1"
    using medkitMaintenance_bullets [OF 2] 3 by (simp add: collectMedkits_bullets respawnPlayers_bullets)
  then show ?thesis
    using substeps_bullets [of w now 4 _ s1 b] 1 assms(2) by (simp add: PHYSICS_SUBSTEPS_def eval_nat_numeral)
qed

lemma onMessage_bullets:
  assumes "\<forall>b\<in>set (bullets s). now - spawnTime b \<le> 3000" "now \<le> t"
  shows "\<forall>b\<in>set (bullets (onMessage k t msg s)). now - spawnTime b \<le> 3000"
  using assms
  by (auto simp: onMessage_def onShoot_def Let_def newBullet_def
      split: message.splits option.splits if_splits)


lemma sqrt_ge_iff: "0 \<le> c \<Longrightarrow> c \<le> sqrt x \<longleftrightarrow> c * c \<le> x"
proof -
  assume c: "0 \<le> c"
  have "sqrt (c * c) = c" using c by simp
  then show ?thesis using real_sqrt_le_iff [of "c * c" x] by simp
qed

text \<open>
  Claim C6. One pass of \<open>updateBullets\<close> advances every projectile and keeps exactly those
  that do not meet a removal test; a projectile older than 3000 ms, or farther than 300 from
  the origin after the move, or whose displacement ray hits the world within the length of the
  displacement, meets it. So every projectile in the list after a tick was spawned at most
  3000 ms before the clock reading of that tick, messages that arrive later add only younger
  ones, and at any time \<open>t\<close> no later than \<open>period\<close> after that reading the age is at most
  \<open>3000 + period\<close>.
\<close>

theorem projectiles_are_culled:
  "updateBullets w dt now bs =
     map (\<lambda>b. advance b dt)
         (filter (\<lambda>b. \<not> terminates w now (center (bcollider b)) (advance b dt)) bs) \<and>
   (3000 < now - spawnTime b \<longrightarrow> terminates w now prev b) \<and>
   (300 < vlength (center (bcollider b)) \<longrightarrow> terminates w now prev b) \<and>
   (safeRayIntersect w \<lparr>origin = prev,
        direction = (if vlength (subVectors (center (bcollider b)) prev) > 0
                     then normalize (subVectors (center (bcollider b)) prev)
                     else subVectors (center (bcollider b)) prev)\<rparr> = Some h \<and>
    distance h = Some d \<and> jle d (Fin (vlength (subVectors (center (bcollider b)) prev)))
      \<longrightarrow> terminates w now prev b) \<and>
   (b' \<in> set (updateBullets w dt now bs) \<longrightarrow>
      now - spawnTime b' \<le> 3000 \<and> vlength (center (bcollider b')) \<le> 300) \<and>
   (tick w rnd now s = Inr s' \<and> b'' \<in> set (bullets s') \<and> t - now \<le> period \<longrightarrow>
      t - spawnTime b'' \<le> 3000 + period) \<and>
   ((\<forall>x\<in>set (bullets s). now - spawnTime x \<le> 3000) \<and> now \<le> t \<longrightarrow>
      (\<forall>x\<in>set (bullets (onMessage k t msg s)). now - spawnTime x \<le> 3000))"
proof -
  have "tick w rnd now s = Inr s' \<and> b'' \<in> set (bullets s') \<and> t - now \<le> period \<longrightarrow>
      t - spawnTime b'' \<le> 3000 + period"
    using tick_bullets [where w = w and rnd = rnd and now = now and s = s and s' = s' and b = b'']
    by auto
  then show ?thesis
    using updateBullets_filter [where w = w and dt = dt and now = now and bs = bs]
      terminates_age [where b = b and now = now and w = w and prev = prev]
      terminates_range [where b = b and now = now and w = w and prev = prev]
      terminates_world [where b = b and now = now and w = w and prev = prev and h = h and d = d]
      updateBullets_survivor [where b' = b' and w = w and dt = dt and now = now and bs = bs]
      onMessage_bullets [where s = s and now = now and t = t and k = k and msg = msg]
    by blast
qed

lemma tick_flying:
  "tick openWorld (\<lambda>_. 0) 10 (emptyState\<lparr>bullets := [flyingBullet]\<rparr>)
   = Inr (emptyState\<lparr>bullets := [movedBullet (- (4 / 3))]\<rparr>)"
  by (simp add: tick_def PHYSICS_SUBSTEPS_def eval_nat_numeral substep_def updateBullets_def
      checkCollisions_def respawnPlayers_def medkitMaintenance_def MEDKIT_RESPAWN_INTERVAL_def
      collectMedkits_def emptyState_def flyingBullet_def movedBullet_def terminates_def Let_def
      safeRayIntersect_def openWorld_def advance_def addScaledVector_def vlength_gt_iff lengthSq_def
      substepDelta_def deltaTime_def TICK_TIME_def TICK_RATE_def collide_def)


theorem projectiles_are_culled_witness:
  "terminates openWorld 3001 (Vec3 0 1 0) flyingBullet \<and>
   300 < vlength (center (bcollider (movedBullet (- 301)))) \<and>
   terminates openWorld 10 (Vec3 0 1 0) (movedBullet (- 301)) \<and>
   jle (Fin (1 / 10)) (Fin (vlength (subVectors (center (bcollider (movedBullet (- (4 / 15))))) (Vec3 0 1 0)))) \<and>
   terminates wallWorld 10 (Vec3 0 1 0) (movedBullet (- (4 / 15))) \<and>
   updateBullets wallWorld (1 / 300) 10 [flyingBullet] = [] \<and>
   updateBullets openWorld (1 / 300) 10 [flyingBullet] = [movedBullet (- (4 / 15))] \<and>
   vlength (center (bcollider (movedBullet (- (4 / 15))))) \<le> 300 \<and>
   tick openWorld (\<lambda>_. 0) 10 (emptyState\<lparr>bullets := [flyingBullet]\<rparr>)
     = Inr (emptyState\<lparr>bullets := [movedBullet (- (4 / 3))]\<rparr>) \<and>
   27 - spawnTime (movedBullet (- (4 / 3))) \<le> 3000 + 17 \<and>
   length (bullets (onMessage ''player_a'' 12 Shoot
        (onConnection ''player_a'' (emptyState\<lparr>bullets := [flyingBullet]\<rparr>)))) = 2 \<and>
   10 - spawnTime (bullets (onMessage ''player_a'' 12 Shoot
        (onConnection ''player_a'' (emptyState\<lparr>bullets := [flyingBullet]\<rparr>))) ! 1) \<le> 3000"
proof -
  let ?h = "\<lparr>point = JVec (Fin 0) (Fin 1) (Fin (- (1 / 10))), normal = None,
             distance = Some (Fin (1 / 10))\<rparr>"
  have age: "3000 < 3001 - spawnTime flyingBullet" by (simp add: flyingBullet_def)
  have far: "300 < vlength (center (bcollider (movedBullet (- 301))))"
    by (simp add: movedBullet_def vlength_gt_iff lengthSq_def)
  have ray: "safeRayIntersect wallWorld \<lparr>origin = Vec3 0 1 0,
        direction = (if vlength (subVectors (center (bcollider (movedBullet (- (4 / 15))))) (Vec3 0 1 0)) > 0
                     then normalize (subVectors (center (bcollider (movedBullet (- (4 / 15))))) (Vec3 0 1 0))
                     else subVectors (center (bcollider (movedBullet (- (4 / 15))))) (Vec3 0 1 0))\<rparr> = Some ?h"
    by (simp add: safeRayIntersect_def wallWorld_def)
  have near: "jle (Fin (1 / 10))
      (Fin (vlength (subVectors (center (bcollider (movedBullet (- (4 / 15))))) (Vec3 0 1 0))))"
  proof -
    have "sqrt (16 / 225) = (4 / 15 :: real)"
      using real_sqrt_abs [of "4 / 15"] by (simp add: power2_eq_square)
    then show ?thesis by (simp add: movedBullet_def subVectors_def vlength_def lengthSq_def)
  qed
  have adv: "advance flyingBullet (1 / 300) = movedBullet (- (4 / 15))"
    by (simp add: advance_def flyingBullet_def movedBullet_def addScaledVector_def)
  have pv: "center (bcollider flyingBullet) = Vec3 0 1 0" by (simp add: flyingBullet_def)
  have free: "\<not> terminates openWorld 10 (Vec3 0 1 0) (movedBullet (- (4 / 15)))"
    by (simp add: terminates_def Let_def safeRayIntersect_def openWorld_def movedBullet_def
        flyingBullet_def vlength_gt_iff lengthSq_def)
  have sp: "spawnTime (movedBullet (- (4 / 3))) = 0" by (simp add: movedBullet_def flyingBullet_def)
  have old: "\<forall>x\<in>set (bullets (onConnection ''player_a'' (emptyState\<lparr>bullets := [flyingBullet]\<rparr>))).
               10 - spawnTime x \<le> 3000"
    by (simp add: onConnection_def flyingBullet_def)
  note T = projectiles_are_culled
  have 1: "terminates openWorld 3001 (Vec3 0 1 0) flyingBullet"
    using T [where b = flyingBullet and now = 3001 and w = openWorld and prev = "Vec3 0 1 0"] age
    by blast
  have 2: "terminates openWorld 10 (Vec3 0 1 0) (movedBullet (- 301))"
    using T [where b = "movedBullet (- 301)" and now = 10 and w = openWorld and prev = "Vec3 0 1 0"] far
    by blast
  have 3: "terminates wallWorld 10 (Vec3 0 1 0) (movedBullet (- (4 / 15)))"
    using T [where b = "movedBullet (- (4 / 15))" and now = 10 and w = wallWorld
        and prev = "Vec3 0 1 0" and h = ?h and d = "Fin (1 / 10)"] ray near
    by simp
  have 4: "updateBullets wallWorld (1 / 300) 10 [flyingBullet] = []"
    using T [where w = wallWorld and dt = "1 / 300" and now = 10 and bs = "[flyingBullet]"] 3 adv pv
    by simp
  have 5: "updateBullets openWorld (1 / 300) 10 [flyingBullet] = [movedBullet (- (4 / 15))]"
    using T [where w = openWorld and dt = "1 / 300" and now = 10 and bs = "[flyingBullet]"] free adv pv
    by simp
  have 6: "vlength (center (bcollider (movedBullet (- (4 / 15))))) \<le> 300"
    using T [where w = openWorld and dt = "1 / 300" and now = 10 and bs = "[flyingBullet]"
        and b' = "movedBullet (- (4 / 15))"] 5
    by simp
  have 7: "27 - spawnTime (movedBullet (- (4 / 3))) \<le> 3000 + 17"
    using T [where w = openWorld and rnd = "\<lambda>_. 0" and now = 10
        and s = "emptyState\<lparr>bullets := [flyingBullet]\<rparr>"
        and s' = "emptyState\<lparr>bullets := [movedBullet (- (4 / 3))]\<rparr>"
        and b'' = "movedBullet (- (4 / 3))" and t = 27 and period = 17] tick_flying
    by simp
  have 8: "\<forall>x\<in>set (bullets (onMessage ''player_a'' 12 Shoot
        (onConnection ''player_a'' (emptyState\<lparr>bullets := [flyingBullet]\<rparr>)))). 10 - spawnTime x \<le> 3000"
    using T [where s = "onConnection ''player_a'' (emptyState\<lparr>bullets := [flyingBullet]\<rparr>)"
        and now = 10 and t = 12 and k = "''player_a''" and msg = Shoot] old
    by simp
  have 9: "length (bullets (onMessage ''player_a'' 12 Shoot
        (onConnection ''player_a'' (emptyState\<lparr>bullets := [flyingBullet]\<rparr>)))) = 2"
    by (simp add: onMessage_def onConnection_def emptyState_def getPlayer_def freshPlayer_def
        onShoot_def Let_def)
  then have "bullets (onMessage ''player_a'' 12 Shoot
        (onConnection ''player_a'' (emptyState\<lparr>bullets := [flyingBullet]\<rparr>))) ! 1
      \<in> set (bullets (onMessage ''player_a'' 12 Shoot
        (onConnection ''player_a'' (emptyState\<lparr>bullets := [flyingBullet]\<rparr>))))"
    by (intro nth_mem) simp
  then have 10: "10 - spawnTime (bullets (onMessage ''player_a'' 12 Shoot
        (onConnection ''player_a'' (emptyState\<lparr>bullets := [flyingBullet]\<rparr>))) ! 1) \<le> 3000"
    using 8 by blast
  show ?thesis using 1 2 3 4 5 6 7 9 10 far near tick_flying by simp
qed

section \<open>Pickup placement always answers\<close>

lemma strictCandidate_finite: "strictCandidate w opt ps x z = Some pos \<Longrightarrow> finiteVec pos"
  by (auto simp: strictCandidate_def finiteVec_def Let_def split: option.splits if_splits)

lemma groundCandidate_finite: "groundCandidate w opt x h z = Some pos \<Longrightarrow> finiteVec pos"
  by (auto simp: groundCandidate_def finiteVec_def Let_def split: option.splits if_splits)

lemma primaryLoop_props:
  "primaryLoop w opt ps rnd n (i, a) = (r, (i', a')) \<Longrightarrow>
   a' \<le> a + n \<and> i' = i + 2 * (a' - a) \<and> a \<le> a' \<and>
   (\<forall>pos. r = Some pos \<longrightarrow> finiteVec pos \<and> a < a') \<and> (r = None \<longrightarrow> a' = a + n)"
proof (induction n arbitrary: i a)
  case 0
  then show ?case by auto
next
  case (Suc n)
  show ?case
  proof (cases "strictCandidate w opt ps (sampleCoord rnd opt i) (sampleCoord rnd opt (i + 1))")
    case None
    then have "primaryLoop w opt ps rnd n (i + 2, a + 1) = (r, (i', a'))" using Suc.prems by simp
    from Suc.IH [OF this] show ?thesis by auto
  next
    case (Some pos)
    then show ?thesis using Suc.prems strictCandidate_finite [OF Some] by auto
  qed
qed

lemma relaxedLoop_props:
  "relaxedLoop w opt rnd n (i, a) = (r, (i', a')) \<Longrightarrow>
   a' \<le> a + n \<and> i' = i + 2 * (a' - a) \<and> a \<le> a' \<and>
   (\<forall>pos. r = Some pos \<longrightarrow> finiteVec pos \<and> a < a') \<and> (r = None \<longrightarrow> a' = a + n)"
proof (induction n arbitrary: i a)
  case 0
  then show ?case by auto
next
  case (Suc n)
  show ?case
  proof (cases "groundCandidate w opt (sampleCoord rnd opt i) (rayHeight opt) (sampleCoord rnd opt (i + 1))")
    case None
    then have "relaxedLoop w opt rnd n (i + 2, a + 1) = (r, (i', a'))" using Suc.prems by simp
    from Suc.IH [OF this] show ?thesis by auto
  next
    case (Some pos)
    then show ?thesis using Suc.prems groundCandidate_finite [OF Some] by auto
  qed
qed

lemma ringLoop_props:
  "ringLoop w opt p rnd n (i, a) = (r, (i', a')) \<Longrightarrow>
   a' \<le> a + n \<and> i' = i + 2 * (a' - a) \<and> a \<le> a' \<and>
   (\<forall>pos. r = Some pos \<longrightarrow> finiteVec pos \<and> a < a') \<and> (r = None \<longrightarrow> a' = a + n)"
proof (induction n arbitrary: i a)
  case 0
  then show ?case by auto
next
  case (Suc n)
  let ?c = "groundCandidate w opt
      ((vx (cstart (collider p)) + vx (cend (collider p))) / 2
         + cos (rnd i * pi * 2) * (MEDKIT_MIN_PLAYER_DISTANCE + rnd (i + 1) * 4))
      MEDKIT_RAY_HEIGHT
      ((vz (cstart (collider p)) + vz (cend (collider p))) / 2
         + sin (rnd i * pi * 2) * (MEDKIT_MIN_PLAYER_DISTANCE + rnd (i + 1) * 4))"
  show ?case
  proof (cases ?c)
    case None
    then have "ringLoop w opt p rnd n (i + 2, a + 1) = (r, (i', a'))"
      using Suc.prems by (simp add: Let_def)
    from Suc.IH [OF this] show ?thesis by auto
  next
    case (Some pos)
    then show ?thesis using Suc.prems groundCandidate_finite [OF Some] by (auto simp: Let_def)
  qed
qed

lemma unconditioned_props:
  "finiteVec (fst (unconditioned rnd opt ia)) \<and> snd (unconditioned rnd opt ia) = (fst ia + 2, snd ia + 1)"
  by (simp add: unconditioned_def finiteVec_def)

lemma floor_index:
  assumes "0 \<le> r" "r < 1" "0 < n"
  shows "0 \<le> \<lfloor>r * real n\<rfloor> \<and> \<lfloor>r * real n\<rfloor> < int n"
proof -
  have "0 \<le> r * real n" using assms by simp
  moreover have "r * real n < real n" using assms by simp
  ultimately show ?thesis by (simp add: floor_less_iff)
qed


text \<open>
  Claim C8. Whatever the octree answers (ready or not, hits or none, finite or not) and whoever
  is connected, \<open>randomGroundPosition\<close> returns a position whose three coordinates are finite,
  after at least one and at most \<open>maxTries + 20 + 12 + 1\<close> sampled candidates, provided
  \<open>Math.random()\<close> keeps its contract of values in \<open>[0, 1)\<close>.
\<close>

theorem placement_total_and_finite:
  assumes "\<forall>i. 0 \<le> rnd i \<and> rnd i < 1"
  shows "\<exists>pos i a. randomGroundPosition w ps rnd opt = Inr (pos, (i, a)) \<and>
           isFinite (jx pos) \<and> isFinite (jy pos) \<and> isFinite (jz pos) \<and>
           1 \<le> a \<and> a \<le> maxTries opt + 20 + 12 + 1"
proof (cases "octreeReady w")
  case False
  then show ?thesis
    using unconditioned_props [of rnd opt "(0, 0)"]
    by (cases "unconditioned rnd opt (0, 0)") (auto simp: randomGroundPosition_def finiteVec_def)
next
  case True
  obtain r1 i1 a1 where p: "primaryLoop w opt ps rnd (maxTries opt) (0, 0) = (r1, (i1, a1))"
    by (metis prod.exhaust)
  note P = primaryLoop_props [OF p]
  show ?thesis
  proof (cases r1)
    case (Some pos)
    then show ?thesis using True p Some P
      by (auto simp: randomGroundPosition_def finiteVec_def)
  next
    case None
    obtain r2 i2 a2 where q: "relaxedLoop w opt rnd 20 (i1, a1) = (r2, (i2, a2))"
      by (metis prod.exhaust)
    note Q = relaxedLoop_props [OF q]
    have a2: "1 \<le> a2" using Q by (cases r2) auto
    show ?thesis
    proof (cases r2)
      case (Some pos)
      then show ?thesis using True p None q P Q a2
        by (auto simp: randomGroundPosition_def finiteVec_def)
    next
      case r2: None
      show ?thesis
      proof (cases "ps = []")
        case True
        then show ?thesis
          using \<open>octreeReady w\<close> p None q r2 P Q a2 unconditioned_props [of rnd opt "(i2, a2)"]
          by (cases "unconditioned rnd opt (i2, a2)")
             (auto simp: randomGroundPosition_def finiteVec_def)
      next
        case False
        then have n: "0 < length ps" by simp
        let ?k = "\<lfloor>rnd i2 * real (length ps)\<rfloor>"
        have k: "0 \<le> ?k \<and> ?k < int (length ps)"
          using floor_index [of "rnd i2" "length ps"] assms n by simp
        obtain r3 i3 a3 where
          g: "ringLoop w opt (ps ! nat ?k) rnd 12 (i2 + 1, a2) = (r3, (i3, a3))"
          by (metis prod.exhaust)
        note G = ringLoop_props [OF g]
        show ?thesis
        proof (cases r3)
          case (Some pos)
          then show ?thesis
            using \<open>octreeReady w\<close> p None q r2 False k g P Q G a2
            by (auto simp: randomGroundPosition_def finiteVec_def Let_def)
        next
          case r3: None
          then show ?thesis
            using \<open>octreeReady w\<close> p None q r2 False k g P Q G a2
              unconditioned_props [of rnd opt "(i3, a3)"]
            by (cases "unconditioned rnd opt (i3, a3)")
               (auto simp: randomGroundPosition_def finiteVec_def Let_def)
        qed
      qed
    qed
  qed
qed


lemma primaryLoop_fails:
  "\<forall>x z. strictCandidate w opt ps x z = None \<Longrightarrow>
   primaryLoop w opt ps rnd n (i, a) = (None, (i + 2 * n, a + n))"
  by (induction n arbitrary: i a) simp_all

lemma relaxedLoop_fails:
  "\<forall>x h z. groundCandidate w opt x h z = None \<Longrightarrow>
   relaxedLoop w opt rnd n (i, a) = (None, (i + 2 * n, a + n))"
  by (induction n arbitrary: i a) simp_all

lemma ringLoop_fails:
  "\<forall>x h z. groundCandidate w opt x h z = None \<Longrightarrow>
   ringLoop w opt p rnd n (i, a) = (None, (i + 2 * n, a + n))"
  by (induction n arbitrary: i a) (simp_all add: Let_def)

lemma nanWorld_strict: "strictCandidate nanWorld defaultOptions ps x z = None"
  by (simp add: strictCandidate_def safeRayIntersect_def nanWorld_def normalYOf_def
      defaultOptions_def MEDKIT_MIN_GROUND_NORMAL_def)

lemma nanWorld_ground: "groundCandidate nanWorld opt x h z = None"
  by (simp add: groundCandidate_def safeRayIntersect_def nanWorld_def liftPoint_def Let_def)

lemma nanWorld_placement:
  "randomGroundPosition nanWorld [freshPlayer ''player_a'' 0] (\<lambda>_. 1 / 2) defaultOptions
   = Inr (JVec (Fin 0) (Fin (37 / 100)) (Fin 0), (187, 93))"
proof -
  have r: "octreeReady nanWorld" by (simp add: nanWorld_def)
  have m: "maxTries defaultOptions = 60" by (simp add: defaultOptions_def MEDKIT_TRIES_def)
  have u: "unconditioned (\<lambda>_. 1 / 2) defaultOptions (185, 92)
           = (JVec (Fin 0) (Fin (37 / 100)) (Fin 0), (187, 93))"
    by (simp add: unconditioned_def sampleCoord_def defaultOptions_def MEDKIT_RADIUS_def)
  show ?thesis
    using r m u
      primaryLoop_fails [where w = nanWorld and opt = defaultOptions
        and ps = "[freshPlayer ''player_a'' 0]" and rnd = "\<lambda>_. 1 / 2" and n = 60 and i = 0 and a = 0]
      relaxedLoop_fails [where w = nanWorld and opt = defaultOptions
        and rnd = "\<lambda>_. 1 / 2" and n = 20 and i = 120 and a = 60]
      ringLoop_fails [where w = nanWorld and opt = defaultOptions
        and p = "freshPlayer ''player_a'' 0" and rnd = "\<lambda>_. 1 / 2" and n = 12 and i = 161 and a = 80]
    by (simp add: randomGroundPosition_def nanWorld_strict nanWorld_ground)
qed

theorem placement_total_and_finite_witness:
  "(\<forall>i::nat. (0::real) \<le> 1 / 2 \<and> (1 / 2 :: real) < 1) \<and>
   randomGroundPosition nanWorld [freshPlayer ''player_a'' 0] (\<lambda>_. 1 / 2) defaultOptions
     = Inr (JVec (Fin 0) (Fin (37 / 100)) (Fin 0), (187, 93)) \<and>
   (\<exists>pos i a. randomGroundPosition nanWorld [freshPlayer ''player_a'' 0] (\<lambda>_. 1 / 2) defaultOptions
        = Inr (pos, (i, a)) \<and>
      isFinite (jx pos) \<and> isFinite (jy pos) \<and> isFinite (jz pos) \<and>
      1 \<le> a \<and> a \<le> maxTries defaultOptions + 20 + 12 + 1)"
proof -
  have h: "\<forall>i::nat. 0 \<le> (\<lambda>_. 1 / 2 :: real) i \<and> (\<lambda>_. 1 / 2 :: real) i < 1" by simp
  show ?thesis
    using placement_total_and_finite [OF h, of nanWorld "[freshPlayer ''player_a'' 0]" defaultOptions]
      nanWorld_placement
    by simp
qed

section \<open>Projectile hits\<close>












lemma collide_miss:
  "find (struckBy b) ps = None \<Longrightarrow> collide now b (ps, dead, kept) = (ps, dead, b # kept)"
  by (simp add: collide_def)









section \<open>Horizontal speed\<close>

lemma sqrt_le_iff: "0 \<le> c \<Longrightarrow> sqrt x \<le> c \<longleftrightarrow> x \<le> c * c"
proof -
  assume c: "0 \<le> c"
  have "sqrt (c * c) = c" using c by simp
  then show ?thesis using real_sqrt_le_iff [of x "c * c"] by simp
qed

lemma horizontalSpeed_le: "0 \<le> c \<Longrightarrow> horizontalSpeed v \<le> c \<longleftrightarrow> vx v * vx v + vz v * vz v \<le> c * c"
  by (simp add: horizontalSpeed_def vlength_def lengthSq_def sqrt_le_iff)

lemma clamp_bound: "horizontalSpeed (clampHorizontal v) \<le> MAX_SPEED"
proof (cases "lengthSq (Vec3 (vx v) 0 (vz v)) > MAX_SPEED * MAX_SPEED")
  case False
  then show ?thesis
    by (simp add: horizontalSpeed_le MAX_SPEED_def clampHorizontal_def lengthSq_def)
next
  case True
  define q where "q = vx v * vx v + vz v * vz v"
  define r where "r = 1 / sqrt q"
  have q: "25 < q" using True by (simp add: q_def lengthSq_def MAX_SPEED_def)
  then have s: "sqrt q \<noteq> 0" "sqrt q * sqrt q = q" by simp_all
  then have rr: "r * r * q = 1" using q by (simp add: r_def)
  have cv: "clampHorizontal v = Vec3 (vx v * r * 5) (vy v) (vz v * r * 5)"
    using True s
    by (simp add: clampHorizontal_def lengthSq_def Let_def normalize_def vlength_def
        multiplyScalar_def q_def r_def MAX_SPEED_def)
  have "vx v * r * 5 * (vx v * r * 5) + vz v * r * 5 * (vz v * r * 5) = 25 * (r * r * q)"
    by (simp add: q_def algebra_simps)
  then show ?thesis
    unfolding rr by (simp add: cv horizontalSpeed_le MAX_SPEED_def)
qed

lemma clamp_vertical: "vy (clampHorizontal v) = vy v"
  by (simp add: clampHorizontal_def Let_def)

lemma substepDelta_value: "substepDelta = 1 / 300"
  by (simp add: substepDelta_def deltaTime_def TICK_TIME_def TICK_RATE_def PHYSICS_SUBSTEPS_def)

lemma forward_unrotated: "applyEuler (Vec3 0 0 (-1)) (Euler 0 0 0) = Vec3 0 0 (-1)"
  by (simp add: applyEuler_forward)

lemma accelerate_runner: "accelerate runner (1 / 300) = Vec3 (77 / 15) 8 0"
  by (simp add: accelerate_def runner_def freshPlayer_def forward_unrotated setY_def normalize_def
      vlength_def lengthSq_def multiplyScalar_def crossVectors_def vadd_def Let_def
      PLAYER_SPEED_def JUMP_VELOCITY_def)

lemma clamp_runner: "clampHorizontal (damp (Vec3 (77 / 15) 8 0) (1 / 300)) = Vec3 5 8 0"
proof -
  define x :: real where "x = 77 / 15 * exp (- (1 / 50))"
  have "1 + (- (1 / 50)) \<le> exp (- (1 / 50) :: real)" by (rule exp_ge_add_one_self)
  then have x: "5 < x" by (simp add: x_def)
  then have sq: "sqrt (x * x) = x" by simp
  have "5 * 5 < x * x" using x by (intro mult_strict_mono) simp_all
  then have xx: "25 < x * x" by simp
  have d: "damp (Vec3 (77 / 15) 8 0) (1 / 300) = Vec3 x 8 0" by (simp add: damp_def x_def)
  show ?thesis
    using x xx sq
    by (simp add: d clampHorizontal_def lengthSq_def Let_def normalize_def vlength_def
        multiplyScalar_def MAX_SPEED_def)
qed

lemma slide_along_wall:
  assumes "vy n = 0" "lengthSq n = 1"
  shows "horizontalSpeed (addScaledVector v n (- dot n v)) \<le> horizontalSpeed v"
proof -
  define d where "d = vx n * vx v + vz n * vz v"
  have u: "vx n * vx n + vz n * vz n = 1" using assms by (simp add: lengthSq_def)
  have "(vx v - vx n * d) * (vx v - vx n * d) + (vz v - vz n * d) * (vz v - vz n * d)
        = vx v * vx v + vz v * vz v - 2 * (d * d) + d * d * (vx n * vx n + vz n * vz n)"
    by (simp add: d_def algebra_simps)
  also have "\<dots> = vx v * vx v + vz v * vz v - d * d" unfolding u by simp
  also have "\<dots> \<le> vx v * vx v + vz v * vz v" by simp
  finally have "(vx v - vx n * d) * (vx v - vx n * d) + (vz v - vz n * d) * (vz v - vz n * d)
        \<le> vx v * vx v + vz v * vz v" .
  moreover have "vx v + vx n * (- (vx n * vx v) - vz n * vz v) = vx v - vx n * d"
    and "vz v + vz n * (- (vx n * vx v) - vz n * vz v) = vz v - vz n * d"
    by (simp_all add: d_def algebra_simps)
  ultimately show ?thesis
    using assms(1)
    by (simp add: horizontalSpeed_def vlength_def lengthSq_def addScaledVector_def dot_def)
qed

lemma horizontalSpeed_zero: "horizontalSpeed (Vec3 0 0 0) = 0"
  by (simp add: horizontalSpeed_def vlength_def lengthSq_def)

lemma failSafe_speed:
  "horizontalSpeed (velocity p) \<le> MAX_SPEED \<Longrightarrow> horizontalSpeed (velocity (failSafe p)) \<le> MAX_SPEED"
  by (simp add: failSafe_def horizontalSpeed_zero MAX_SPEED_def)

lemma respond_speed:
  assumes "respond result p = Inr p'" "horizontalSpeed (velocity p) \<le> MAX_SPEED"
    and "\<forall>k n. result = Some k \<and> cnormal k = Some n \<longrightarrow> 0 < vy n \<or> (vy n = 0 \<and> lengthSq n = 1)"
  shows "horizontalSpeed (velocity p') \<le> MAX_SPEED"
proof (cases result)
  case None
  then show ?thesis using assms by (auto simp: respond_def)
next
  case (Some k)
  then obtain n where n: "cnormal k = Some n"
    using assms(1) by (cases "cnormal k") (auto simp: respond_def)
  then consider "0 < vy n" | "vy n = 0 \<and> lengthSq n = 1" using assms(3) Some by blast
  then show ?thesis
  proof cases
    case 1
    then show ?thesis using assms(1,2) Some n by (auto simp: respond_def Let_def)
  next
    case 2
    then have "horizontalSpeed (addScaledVector (velocity p) n (- dot n (velocity p)))
               \<le> horizontalSpeed (velocity p)"
      using slide_along_wall by blast
    then show ?thesis using assms(1,2) Some n 2 by (auto simp: respond_def Let_def)
  qed
qed

lemma updatePlayer_speed:
  assumes "updatePlayer w p dt = Inr p'"
    and "\<forall>k n. capsuleIntersect w
                 (translate (collider p)
                    (multiplyScalar (clampHorizontal (damp (accelerate p dt) dt)) dt))
               = Returns (Some k) \<and> cnormal k = Some n
           \<longrightarrow> 0 < vy n \<or> (vy n = 0 \<and> lengthSq n = 1)"
  shows "horizontalSpeed (velocity p') \<le> MAX_SPEED"
proof -
  define v where "v = clampHorizontal (damp (accelerate p dt) dt)"
  define p1 where "p1 = p\<lparr>velocity := v, collider := translate (collider p) (multiplyScalar v dt)\<rparr>"
  obtain result p2 where r: "capsuleIntersect w (collider p1) = Returns result"
    and p2: "respond result p1 = Inr p2" and p': "p' = failSafe p2"
    using assms(1)
    by (auto simp: updatePlayer_def Let_def v_def p1_def split: outcome.splits sum.splits)
  have c: "collider p1 = translate (collider p) (multiplyScalar v dt)" by (simp add: p1_def)
  have "horizontalSpeed (velocity p1) \<le> MAX_SPEED" by (simp add: p1_def v_def clamp_bound)
  moreover have "\<forall>k n. result = Some k \<and> cnormal k = Some n \<longrightarrow> 0 < vy n \<or> (vy n = 0 \<and> lengthSq n = 1)"
    using assms(2) r unfolding c v_def by blast
  ultimately have "horizontalSpeed (velocity p2) \<le> MAX_SPEED" using respond_speed [OF p2] by blast
  then show ?thesis using p' failSafe_speed by simp
qed

text \<open>
  Claim C2, amended. The clamp leaves a horizontal speed of at most \<open>MAX_SPEED\<close> and does not
  touch the vertical speed. The bound still holds after the whole substep when the capsule
  sweep of that substep (the query for the player's capsule moved by the clamped velocity)
  reports no contact, a floor contact (normal with positive y) or a contact with a vertical
  wall (unit normal with y = 0); what the octree would answer for other capsules does not
  matter.
\<close>

theorem horizontal_speed_clamped:
  "horizontalSpeed (clampHorizontal v) \<le> MAX_SPEED \<and> vy (clampHorizontal v) = vy v \<and>
   (updatePlayer w p dt = Inr p' \<and>
    (\<forall>k n. capsuleIntersect w
               (translate (collider p)
                  (multiplyScalar (clampHorizontal (damp (accelerate p dt) dt)) dt))
             = Returns (Some k) \<and> cnormal k = Some n
        \<longrightarrow> 0 < vy n \<or> (vy n = 0 \<and> lengthSq n = 1))
      \<longrightarrow> horizontalSpeed (velocity p') \<le> MAX_SPEED)"
  using clamp_bound [of v] clamp_vertical [of v]
    updatePlayer_speed [where w = w and p = p and dt = dt and p' = p']
  by blast

lemma translate_zero: "translate c (multiplyScalar n 0) = c"
  by (simp add: translate_def multiplyScalar_def vadd_def)

lemma moved_runner:
  "translate (collider runner) (multiplyScalar (Vec3 5 8 0) (1 / 300))
   = \<lparr>cstart = Vec3 (1 / 60) (113 / 300) 0, cend = Vec3 (1 / 60) (62 / 75) 0, cradius = 35 / 100\<rparr>"
  by (simp add: translate_def multiplyScalar_def vadd_def runner_def freshPlayer_def spawnCapsule_def)

lemma swept_runner:
  "translate (collider runner)
     (multiplyScalar (clampHorizontal (damp (accelerate runner substepDelta) substepDelta)) substepDelta)
   = \<lparr>cstart = Vec3 (1 / 60) (113 / 300) 0, cend = Vec3 (1 / 60) (62 / 75) 0, cradius = 35 / 100\<rparr>"
  by (simp add: substepDelta_value accelerate_runner clamp_runner moved_runner)

theorem horizontal_speed_clamped_witness:
  "updatePlayer mixedWorld runner substepDelta = Inr runnerStopped \<and>
   capsuleIntersect mixedWorld
       (translate (collider runner)
          (multiplyScalar (clampHorizontal (damp (accelerate runner substepDelta) substepDelta))
             substepDelta))
     = Returns (Some \<lparr>cnormal = Some (Vec3 (- 1) 0 0), depth = 0\<rparr>) \<and>
   capsuleIntersect mixedWorld (collider runner)
     = Returns (Some \<lparr>cnormal = Some (Vec3 (3 / 5) (- (4 / 5)) 0), depth = 0\<rparr>) \<and>
   lengthSq (Vec3 (- 1) 0 0) = 1 \<and>
   horizontalSpeed (velocity runnerStopped) \<le> MAX_SPEED \<and>
   horizontalSpeed (clampHorizontal (Vec3 30 2 40)) \<le> MAX_SPEED \<and>
   vy (clampHorizontal (Vec3 30 2 40)) = 2"
proof -
  have u: "updatePlayer mixedWorld runner substepDelta = Inr runnerStopped"
    by (simp add: substepDelta_value updatePlayer_def Let_def accelerate_runner clamp_runner
        moved_runner mixedWorld_def respond_def failSafe_def translate_zero addScaledVector_def
        dot_def runnerStopped_def)
  have s: "capsuleIntersect mixedWorld
       (translate (collider runner)
          (multiplyScalar (clampHorizontal (damp (accelerate runner substepDelta) substepDelta))
             substepDelta))
     = Returns (Some \<lparr>cnormal = Some (Vec3 (- 1) 0 0), depth = 0\<rparr>)"
    by (simp add: swept_runner mixedWorld_def)
  have e: "capsuleIntersect mixedWorld (collider runner)
     = Returns (Some \<lparr>cnormal = Some (Vec3 (3 / 5) (- (4 / 5)) 0), depth = 0\<rparr>)"
    by (simp add: mixedWorld_def runner_def freshPlayer_def spawnCapsule_def)
  have l: "lengthSq (Vec3 (- 1) 0 0) = 1" by (simp add: lengthSq_def)
  have n: "\<forall>k n. capsuleIntersect mixedWorld
               (translate (collider runner)
                  (multiplyScalar (clampHorizontal (damp (accelerate runner substepDelta) substepDelta))
                     substepDelta))
             = Returns (Some k) \<and> cnormal k = Some n
        \<longrightarrow> 0 < vy n \<or> (vy n = 0 \<and> lengthSq n = 1)"
    using l by (auto simp: s)
  show ?thesis
    using u s e l n
      horizontal_speed_clamped [where v = "Vec3 30 2 40" and w = mixedWorld and p = runner
        and dt = substepDelta and p' = runnerStopped]
    by simp
qed

text \<open>
  Claim C2 as stated fails: the sliding response runs after the clamp and is not clamped again.
  The runner enters the substep at speed 5, is clamped to horizontal speed 5 with vertical speed
  8, and the contact with the overhang turns part of the upward speed into horizontal speed:
  7.04 after the substep.
\<close>

theorem overhang_deflection_counterexample:
  "updatePlayer overhangWorld runner substepDelta = Inr runnerAfter \<and>
   velocity runnerAfter = Vec3 (176 / 25) (132 / 25) 0 \<and>
   MAX_SPEED < horizontalSpeed (velocity runnerAfter)"
proof -
  have h: "horizontalSpeed (Vec3 (176 / 25) (132 / 25) 0) = 176 / 25"
    using real_sqrt_abs [of "176 / 25"]
    by (simp add: horizontalSpeed_def vlength_def lengthSq_def power2_eq_square)
  have u: "updatePlayer overhangWorld runner (1 / 300) = Inr runnerAfter"
    by (simp add: updatePlayer_def Let_def accelerate_runner clamp_runner moved_runner
        overhangWorld_def respond_def failSafe_def translate_zero addScaledVector_def dot_def
        runnerAfter_def)
  show ?thesis
    using u h by (simp add: substepDelta_value runnerAfter_def MAX_SPEED_def)
qed

section \<open>Ammo and reload\<close>













































end
